theory Spec2Isabelle
  imports Complex_Main
begin

section \<open>JavaScript values used by the component\<close>

text \<open>
  A JavaScript number is an IEEE 754 double: a finite value or one of the three
  special values. A finite value is carried as the real it denotes, and every
  arithmetic operation rounds its exact result to the nearest double, ties to the even
  significand, as ECMAScript prescribes. The two zeros are not told apart (the sizes
  a viewport reports are never negative). The numbers the component only hands to
  three.js (the sizes of the shapes, the field of view, the clipping planes, the
  intensities and positions of the lights) are recorded as the decimals the source
  writes: nothing is computed from them.
\<close>

datatype jsnum = Num real | PosInf | NegInf | NaN

fun isFinite :: "jsnum \<Rightarrow> bool" where
  "isFinite (Num a) = True"
| "isFinite PosInf = False"
| "isFinite NegInf = False"
| "isFinite NaN = False"

text \<open>
  Rounding. \<open>rne\<close> rounds a real to the nearest integer, a tie to the even one.
  \<open>fl y\<close> is the double nearest to \<open>y\<close> when the exponent range is unbounded above:
  \<open>y\<close> is scaled by the unit in the last place of its binade, of 53 significant bits
  and of exponent at least \<open>-1022\<close> (below that the doubles are subnormal and
  equally spaced), and rounded there. \<open>to_double y\<close> is the Number value of the real
  \<open>y\<close>: a rounded value of magnitude \<open>2 ^ 1024\<close> or more overflows to an
  infinity. It is the value of a numeric literal and of the exact result of an
  operation.
\<close>

definition pow2 :: "int \<Rightarrow> real" where
  "pow2 k = 2 powr of_int k"

definition rne :: "real \<Rightarrow> int" where
  "rne t =
     (let f = \<lfloor>t\<rfloor>; r = t - of_int f
      in if r < 1 / 2 then f else if 1 / 2 < r then f + 1 else if even f then f else f + 1)"

definition fl :: "real \<Rightarrow> real" where
  "fl y =
     (if y = 0 then 0
      else
        let e = max \<lfloor>log 2 \<bar>y\<bar>\<rfloor> (- 1022);
            u = pow2 (e - 52)
        in u * of_int (rne (y / u)))"

definition to_double :: "real \<Rightarrow> jsnum" where
  "to_double y =
     (if 2 ^ 1024 \<le> fl y then PosInf else if fl y \<le> - (2 ^ 1024) then NegInf else Num (fl y))"

text \<open>The operator \<open>/\<close> of JavaScript: a zero divisor gives NaN or an infinity.\<close>

fun js_div :: "jsnum \<Rightarrow> jsnum \<Rightarrow> jsnum" where
  "js_div (Num a) (Num b) =
     (if b = 0 then (if a = 0 then NaN else if 0 < a then PosInf else NegInf)
      else to_double (a / b))"
| "js_div (Num a) PosInf = Num 0"
| "js_div (Num a) NegInf = Num 0"
| "js_div PosInf (Num b) = (if b < 0 then NegInf else PosInf)"
| "js_div NegInf (Num b) = (if b < 0 then PosInf else NegInf)"
| "js_div PosInf PosInf = NaN"
| "js_div PosInf NegInf = NaN"
| "js_div NegInf PosInf = NaN"
| "js_div NegInf NegInf = NaN"
| "js_div NaN b = NaN"
| "js_div a NaN = NaN"

text \<open>The operator \<open>+\<close> on numbers.\<close>

fun js_add :: "jsnum \<Rightarrow> jsnum \<Rightarrow> jsnum" where
  "js_add (Num a) (Num b) = to_double (a + b)"
| "js_add (Num a) PosInf = PosInf"
| "js_add (Num a) NegInf = NegInf"
| "js_add PosInf (Num b) = PosInf"
| "js_add NegInf (Num b) = NegInf"
| "js_add PosInf PosInf = PosInf"
| "js_add NegInf NegInf = NegInf"
| "js_add PosInf NegInf = NaN"
| "js_add NegInf PosInf = NaN"
| "js_add NaN b = NaN"
| "js_add a NaN = NaN"

text \<open>Truthiness of a number (zero and NaN are falsy) and \<open>a || b\<close> on numbers.\<close>

fun num_truthy :: "jsnum \<Rightarrow> bool" where
  "num_truthy (Num a) = (a \<noteq> 0)"
| "num_truthy PosInf = True"
| "num_truthy NegInf = True"
| "num_truthy NaN = False"

definition js_or :: "jsnum \<Rightarrow> jsnum \<Rightarrow> jsnum" where
  "js_or a b = (if num_truthy a then a else b)"

text \<open>
  The values \<open>JSON.parse\<close> can return, and \<open>undefined\<close> for a property that is not
  there. An object is the list of its own properties.
\<close>

datatype jsval =
    JUndefined
  | JNull
  | JBool bool
  | JNumber jsnum
  | JString string
  | JArray "jsval list"
  | JObject "(string \<times> jsval) list"

fun truthy :: "jsval \<Rightarrow> bool" where
  "truthy JUndefined = False"
| "truthy JNull = False"
| "truthy (JBool b) = b"
| "truthy (JNumber n) = num_truthy n"
| "truthy (JString s) = (s \<noteq> [])"
| "truthy (JArray vs) = True"
| "truthy (JObject kvs) = True"

fun typeof :: "jsval \<Rightarrow> string" where
  "typeof JUndefined = ''undefined''"
| "typeof JNull = ''object''"
| "typeof (JBool b) = ''boolean''"
| "typeof (JNumber n) = ''number''"
| "typeof (JString s) = ''string''"
| "typeof (JArray vs) = ''object''"
| "typeof (JObject kvs) = ''object''"

text \<open>What an evaluation that may throw comes to: a value or an exception.\<close>

datatype 'a outcome = Returns 'a | Throws

text \<open>
  Reading the property \<open>k\<close> of a value, for a name \<open>k\<close> that no prototype defines
  (\<open>x\<close>, \<open>y\<close>, \<open>z\<close>): only an object can have it, every other value gives
  \<open>undefined\<close>, and reading a property of \<open>null\<close> or \<open>undefined\<close> throws a TypeError.
\<close>

fun getProp :: "jsval \<Rightarrow> string \<Rightarrow> jsval outcome" where
  "getProp JUndefined k = Throws"
| "getProp JNull k = Throws"
| "getProp (JObject kvs) k =
     Returns (case map_of kvs k of None \<Rightarrow> JUndefined | Some v \<Rightarrow> v)"
| "getProp v k = Returns JUndefined"

fun numberOf :: "jsval \<Rightarrow> jsnum" where
  "numberOf (JNumber n) = n"
| "numberOf v = NaN"

text \<open>
  The JSON library is the host's, not the component's: it is a parameter of the model.
  \<open>parse\<close> either returns a value or throws a SyntaxError.
\<close>

record JSON =
  parse :: "string \<Rightarrow> jsval outcome"
  stringify :: "jsval \<Rightarrow> string"

text \<open>
  A JSON library given by two finite tables, for evaluating the model at concrete
  inputs: the texts that parse, with the values they denote, and the values that are
  serialised, with their texts. Every other text fails to parse.
\<close>

definition jsonTable :: "(string \<times> jsval) list \<Rightarrow> (jsval \<times> string) list \<Rightarrow> JSON" where
  "jsonTable texts vals =
     \<lparr> parse = (\<lambda>s. case map_of texts s of None \<Rightarrow> Throws | Some v \<Rightarrow> Returns v),
       stringify = (\<lambda>v. case map_of vals v of None \<Rightarrow> ''null'' | Some s \<Rightarrow> s) \<rparr>"

section \<open>The preference store\<close>

type_synonym Storage = "string \<rightharpoonup> string"

definition getItem :: "Storage \<Rightarrow> string \<Rightarrow> string option" where
  "getItem ls k = ls k"

definition setItem :: "Storage \<Rightarrow> string \<Rightarrow> string \<Rightarrow> Storage" where
  "setItem ls k v = ls(k \<mapsto> v)"

definition String_of_bool :: "bool \<Rightarrow> string" where
  "String_of_bool b = (if b then ''true'' else ''false'')"

section \<open>The catalogue of geometries\<close>

datatype BufferGeometry =
    BoxGeometry real real real
  | SphereGeometry real nat nat
  | PlaneGeometry real real
  | ConeGeometry real real nat
  | CylinderGeometry real real real nat
  | TorusGeometry real real nat nat
  | TorusKnotGeometry real real nat nat
  | RingGeometry real real nat

record GeometryInfo =
  name :: string
  color :: string
  create :: BufferGeometry

definition GEOMETRIES :: "(string \<times> GeometryInfo) list" where
  "GEOMETRIES =
    [ (''box'', \<lparr> name = ''Cubo'', color = ''#44aa88'', create = BoxGeometry 1.5 1.5 1.5 \<rparr>),
      (''sphere'', \<lparr> name = ''Esfera'', color = ''#FF6B6B'', create = SphereGeometry 1 32 16 \<rparr>),
      (''plane'', \<lparr> name = ''Plano'', color = ''#4ECDC4'', create = PlaneGeometry 2 2 \<rparr>),
      (''cone'', \<lparr> name = ''Cono'', color = ''#FFD93D'', create = ConeGeometry 1 2 16 \<rparr>),
      (''cylinder'', \<lparr> name = ''Cilindro'', color = ''#1A535C'', create = CylinderGeometry 1 1 2 16 \<rparr>),
      (''torus'', \<lparr> name = ''Toro'', color = ''#FF6B6B'', create = TorusGeometry 1 0.3 16 64 \<rparr>),
      (''torusKnot'', \<lparr> name = ''Nudo Toroidal'', color = ''#4ECDC4'',
                       create = TorusKnotGeometry 1 0.3 100 16 \<rparr>),
      (''ring'', \<lparr> name = ''Anillo'', color = ''#FFD93D'', create = RingGeometry 0.5 1 32 \<rparr>) ]"

definition Object_keys :: "(string \<times> 'a) list \<Rightarrow> string list" where
  "Object_keys obj = map fst obj"

section \<open>Initial state read from the store\<close>

text \<open>The three \<open>useState\<close> initialisers.\<close>

definition geometryKey_init :: "Storage \<Rightarrow> string" where
  "geometryKey_init ls =
     (case getItem ls ''geometryKey'' of
        None \<Rightarrow> ''box''
      | Some stored \<Rightarrow>
          if stored \<noteq> [] \<and> stored \<in> set (Object_keys GEOMETRIES) then stored else ''box'')"

definition wireframe_init :: "Storage \<Rightarrow> bool" where
  "wireframe_init ls = (getItem ls ''wireframe'' = Some ''true'')"

definition autoRotate_init :: "Storage \<Rightarrow> bool" where
  "autoRotate_init ls = (getItem ls ''autoRotate'' \<noteq> Some ''false'')"

section \<open>Restoring the rotation\<close>

datatype Euler = Euler (euler_x: jsnum) (euler_y: jsnum) (euler_z: jsnum)

definition rotationObject :: "Euler \<Rightarrow> jsval" where
  "rotationObject r =
     JObject [(''x'', JNumber (euler_x r)), (''y'', JNumber (euler_y r)),
              (''z'', JNumber (euler_z r))]"

text \<open>
  The restore step of the scene construction (lines 143 to 151). \<open>tryRestore\<close> is
  the body of the \<open>try\<close>, with the condition evaluated from left to right: the
  stored text is parsed, and the rotation is set when the value is truthy and its
  three components have type number. The empty \<open>catch\<close> turns everything thrown
  inside into doing nothing.
\<close>

definition tryRestore :: "JSON \<Rightarrow> string \<Rightarrow> Euler \<Rightarrow> Euler outcome" where
  "tryRestore J rotStr rotation0 =
     (case parse J rotStr of
        Throws \<Rightarrow> Throws
      | Returns rot \<Rightarrow>
          if \<not> truthy rot then Returns rotation0
          else (case getProp rot ''x'' of
            Throws \<Rightarrow> Throws
          | Returns vx \<Rightarrow>
              if typeof vx \<noteq> ''number'' then Returns rotation0
              else (case getProp rot ''y'' of
                Throws \<Rightarrow> Throws
              | Returns vy \<Rightarrow>
                  if typeof vy \<noteq> ''number'' then Returns rotation0
                  else (case getProp rot ''z'' of
                    Throws \<Rightarrow> Throws
                  | Returns vz \<Rightarrow>
                      if typeof vz \<noteq> ''number'' then Returns rotation0
                      else Returns (Euler (numberOf vx) (numberOf vy) (numberOf vz))))))"

definition restoreRotation :: "JSON \<Rightarrow> Storage \<Rightarrow> Euler \<Rightarrow> Euler" where
  "restoreRotation J ls rotation0 =
     (case getItem ls ''meshRotation'' of
        None \<Rightarrow> rotation0
      | Some rotStr \<Rightarrow>
          if rotStr = [] then rotation0
          else (case tryRestore J rotStr rotation0 of
                  Throws \<Rightarrow> rotation0
                | Returns r \<Rightarrow> r))"

section \<open>The scene objects\<close>

text \<open>
  The objects of three.js that the component makes, with the fields it sets. A colour
  is the number the source writes in hexadecimal. A scene keeps its children in the
  order they were added. A mesh refers to its geometry and its material by address, so
  the material that the wireframe effect writes is the one the cleanup disposes.
  \<open>mat_needsUpdate\<close> is the field \<open>needsUpdate\<close> the source assigns; what three.js
  does when it is set is outside the component.
\<close>

datatype Object3D =
    AmbientLight nat real
  | DirectionalLight nat real "real \<times> real \<times> real"
  | MeshObject nat
  | AxesHelper real
  | GridHelper nat nat nat nat

record Scene =
  background :: nat
  children :: "Object3D list"

record PerspectiveCamera =
  fov :: real
  aspect :: jsnum
  near :: real
  far :: real
  cam_position :: "real \<times> real \<times> real"

record WebGLRenderer =
  antialias :: bool
  rsize :: "jsnum \<times> jsnum"
  pixelRatio :: jsnum

record MeshPhongMaterial =
  mat_color :: string
  mat_wireframe :: bool
  mat_needsUpdate :: bool

record Mesh =
  geometry :: nat
  material :: nat
  rotation :: Euler

text \<open>
  What one run of the scene effect creates and its closures (\<open>animate\<close>,
  \<open>handleResize\<close>, the cleanup) capture. Objects are named by their addresses.
\<close>

record construction =
  c_scene :: nat
  c_camera :: nat
  c_renderer :: nat
  c_geometry :: nat
  c_material :: nat

text \<open>What the component does to graphics resources and to the frame scheduler, in order.\<close>

datatype resource = Renderer nat | Geometry nat | Material nat

datatype action =
    Create resource
  | Dispose resource
  | RequestFrame nat
  | CancelFrame nat
  | Render nat nat nat
  | ClearScene nat

section \<open>The component and its host\<close>

text \<open>
  The state of the component and of its host. First the three React states, the refs
  (\<open>mountRef\<close> is whether the mount point is attached) and the cleanup that the last
  run of the scene effect returned. Then the store of three.js objects, with
  \<open>nextId\<close> the next free address. Then the host: \<open>localStorage\<close>, the size that
  \<open>getBoundingClientRect\<close> reports for the mount point, the device pixel ratio, the
  canvases attached to the mount point, the frame scheduler (the last handle it issued
  and the callbacks waiting for the next display refresh) and the resize listeners of
  the window. \<open>trace\<close> records in order what is created, disposed, requested,
  cancelled, rendered and cleared.
\<close>

record viewer =
  geometryKey :: string
  wireframe :: bool
  autoRotate :: bool
  mountRef :: bool
  sceneRef :: "nat option"
  cameraRef :: "nat option"
  rendererRef :: "nat option"
  currentMeshRef :: "nat option"
  animRef :: "nat option"
  wireframeRef :: bool
  autoRotateRef :: bool
  cleanupFn :: "construction option"
  nextId :: nat
  scenes :: "nat \<rightharpoonup> Scene"
  cameras :: "nat \<rightharpoonup> PerspectiveCamera"
  renderers :: "nat \<rightharpoonup> WebGLRenderer"
  geometries :: "nat \<rightharpoonup> BufferGeometry"
  materials :: "nat \<rightharpoonup> MeshPhongMaterial"
  meshes :: "nat \<rightharpoonup> Mesh"
  localStorage :: Storage
  viewport :: "jsnum \<times> jsnum"
  devicePixelRatio :: jsnum
  mountChildren :: "nat list"
  frameHandle :: nat
  frameCallbacks :: "(nat \<times> construction) list"
  resizeListeners :: "construction list"
  trace :: "action list"

text \<open>An assignment to a field of the object at an address.\<close>

definition modify :: "('a \<rightharpoonup> 'b) \<Rightarrow> 'a \<Rightarrow> ('b \<Rightarrow> 'b) \<Rightarrow> ('a \<rightharpoonup> 'b)" where
  "modify h a f = (case h a of None \<Rightarrow> h | Some v \<Rightarrow> h(a \<mapsto> f v))"

subsection \<open>The effects that mirror the state\<close>

definition syncWireframe :: "viewer \<Rightarrow> viewer" where
  "syncWireframe s =
     s\<lparr> wireframeRef := wireframe s,
        localStorage := setItem (localStorage s) ''wireframe'' (String_of_bool (wireframe s)) \<rparr>"

definition syncAutoRotate :: "viewer \<Rightarrow> viewer" where
  "syncAutoRotate s =
     s\<lparr> autoRotateRef := autoRotate s,
        localStorage := setItem (localStorage s) ''autoRotate'' (String_of_bool (autoRotate s)) \<rparr>"

definition saveGeometryKey :: "viewer \<Rightarrow> viewer" where
  "saveGeometryKey s =
     s\<lparr> localStorage := setItem (localStorage s) ''geometryKey'' (geometryKey s) \<rparr>"

subsection \<open>The frame scheduler\<close>

text \<open>Handles are issued from 1 upwards, so a handle is never 0.\<close>

definition requestAnimationFrame :: "construction \<Rightarrow> viewer \<Rightarrow> nat \<times> viewer" where
  "requestAnimationFrame cb s =
     (let h = frameHandle s + 1
      in (h, s\<lparr> frameHandle := h,
                frameCallbacks := frameCallbacks s @ [(h, cb)],
                trace := trace s @ [RequestFrame h] \<rparr>))"

definition cancelAnimationFrame :: "nat \<Rightarrow> viewer \<Rightarrow> viewer" where
  "cancelAnimationFrame h s =
     s\<lparr> frameCallbacks := filter (\<lambda>hc. fst hc \<noteq> h) (frameCallbacks s),
        trace := trace s @ [CancelFrame h] \<rparr>"

subsection \<open>The frame callback\<close>

text \<open>
  The increment of lines 164 and 165, \<open>rotation.x += 0.01; rotation.y += 0.015\<close>:
  each literal is the double nearest to it, and each sum is rounded.
\<close>

definition advance :: "Euler \<Rightarrow> Euler" where
  "advance r =
     Euler (js_add (euler_x r) (to_double 0.01)) (js_add (euler_y r) (to_double 0.015)) (euler_z r)"

definition rotateAndSave :: "JSON \<Rightarrow> viewer \<Rightarrow> viewer" where
  "rotateAndSave J s =
     (case currentMeshRef s of
        None \<Rightarrow> s
      | Some m \<Rightarrow>
          (case meshes s m of
             None \<Rightarrow> s
           | Some mesh \<Rightarrow>
               s\<lparr> meshes := (meshes s)(m \<mapsto> mesh\<lparr> rotation := advance (rotation mesh) \<rparr>),
                  localStorage :=
                    setItem (localStorage s) ''meshRotation''
                      (stringify J (rotationObject (advance (rotation mesh)))) \<rparr>))"

definition animate :: "JSON \<Rightarrow> construction \<Rightarrow> viewer \<Rightarrow> viewer" where
  "animate J c s =
     (let (h, s1) = requestAnimationFrame c s;
          s2 = s1\<lparr> animRef := Some h \<rparr>;
          s3 = (if autoRotateRef s2 then rotateAndSave J s2 else s2)
      in s3\<lparr> trace := trace s3 @ [Render (c_renderer c) (c_scene c) (c_camera c)] \<rparr>)"

subsection \<open>Resize\<close>

definition handleResize :: "construction \<Rightarrow> viewer \<Rightarrow> viewer" where
  "handleResize c s =
     (if \<not> mountRef s then s
      else
        let w = js_or (fst (viewport s)) (Num 800);
            h = js_or (snd (viewport s)) (Num 600)
        in s\<lparr> cameras := modify (cameras s) (c_camera c) (\<lambda>cam. cam\<lparr> aspect := js_div w h \<rparr>),
              renderers := modify (renderers s) (c_renderer c) (\<lambda>r. r\<lparr> rsize := (w, h) \<rparr>) \<rparr>)"

subsection \<open>The scene effect and its cleanup\<close>

definition addToScene :: "nat \<Rightarrow> Object3D list \<Rightarrow> viewer \<Rightarrow> viewer" where
  "addToScene scene objs s =
     s\<lparr> scenes := modify (scenes s) scene (\<lambda>sc. sc\<lparr> children := children sc @ objs \<rparr>) \<rparr>"

text \<open>Scene, camera, renderer and lights: the first half of the effect.\<close>

definition createScene :: "viewer \<Rightarrow> construction \<times> viewer" where
  "createScene s =
     (let n = nextId s;
          scene = n; camera = n + 1; renderer = n + 2;
          width = fst (viewport s); height = snd (viewport s);
          s1 = s\<lparr> nextId := n + 6,
                  scenes := (scenes s)(scene \<mapsto> \<lparr> background = 0x0a0a0a, children = [] \<rparr>),
                  sceneRef := Some scene \<rparr>;
          s2 = s1\<lparr> cameras := (cameras s1)(camera \<mapsto>
                       \<lparr> fov = 75, aspect = js_div width height, near = 0.1, far = 1000,
                         cam_position = (3, 2, 4) \<rparr>),
                   cameraRef := Some camera \<rparr>;
          s3 = (case rendererRef s2 of
                  None \<Rightarrow> s2
                | Some old \<Rightarrow>
                    s2\<lparr> trace := trace s2 @ [Dispose (Renderer old)],
                        mountChildren := removeAll old (mountChildren s2) \<rparr>);
          s4 = s3\<lparr> renderers := (renderers s3)(renderer \<mapsto>
                       \<lparr> antialias = True, rsize = (width, height),
                         pixelRatio = devicePixelRatio s3 \<rparr>),
                   trace := trace s3 @ [Create (Renderer renderer)],
                   rendererRef := Some renderer,
                   mountChildren := mountChildren s3 @ [renderer] \<rparr>;
          s5 = addToScene scene
                 [AmbientLight 0xffffff 0.35, DirectionalLight 0xffffff 0.9 (5, 5, 5)] s4
      in (\<lparr> c_scene = scene, c_camera = camera, c_renderer = renderer,
            c_geometry = n + 3, c_material = n + 4 \<rparr>, s5))"

text \<open>Geometry, material and mesh, the restored rotation, the helpers.\<close>

definition createMesh :: "JSON \<Rightarrow> GeometryInfo \<Rightarrow> construction \<Rightarrow> viewer \<Rightarrow> viewer" where
  "createMesh J geoObj c s =
     (let mesh = c_material c + 1;
          s1 = s\<lparr> geometries := (geometries s)(c_geometry c \<mapsto> create geoObj),
                  materials := (materials s)(c_material c \<mapsto>
                      \<lparr> mat_color = color geoObj, mat_wireframe = wireframeRef s,
                        mat_needsUpdate = False \<rparr>),
                  trace := trace s @ [Create (Geometry (c_geometry c)),
                                      Create (Material (c_material c))] \<rparr>;
          s2 = s1\<lparr> meshes := (meshes s1)(mesh \<mapsto>
                       \<lparr> geometry = c_geometry c, material = c_material c,
                         rotation = restoreRotation J (localStorage s1)
                                      (Euler (Num 0) (Num 0) (Num 0)) \<rparr>),
                   currentMeshRef := Some mesh \<rparr>;
          s3 = addToScene (c_scene c) [MeshObject mesh] s2
      in addToScene (c_scene c) [AxesHelper 2, GridHelper 10 10 0x444444 0x222222] s3)"

datatype error = TypeError

text \<open>
  The whole effect (lines 102 to 197). Without a mount point it does nothing and
  returns no cleanup.
  A key outside the catalogue makes \<open>geoObj\<close> undefined, and \<open>geoObj.create()\<close> throws.
  The last lines start the loop by calling \<open>animate\<close> directly and register the
  resize listener.
\<close>

definition initScene :: "JSON \<Rightarrow> viewer \<Rightarrow> error + viewer" where
  "initScene J s =
     (if \<not> mountRef s then Inr (s\<lparr> cleanupFn := None \<rparr>)
      else
        let (c, s1) = createScene s
        in (case map_of GEOMETRIES (geometryKey s1) of
              None \<Rightarrow> Inl TypeError
            | Some geoObj \<Rightarrow>
                let s2 = createMesh J geoObj c s1;
                    s3 = animate J c s2
                in Inr (s3\<lparr> resizeListeners := resizeListeners s3 @ [c],
                           cleanupFn := Some c \<rparr>)))"

definition cleanup :: "construction \<Rightarrow> viewer \<Rightarrow> viewer" where
  "cleanup c s =
     (let s1 = s\<lparr> resizeListeners := removeAll c (resizeListeners s) \<rparr>;
          s2 = (case animRef s1 of
                  None \<Rightarrow> s1
                | Some h \<Rightarrow> if h \<noteq> 0 then cancelAnimationFrame h s1 else s1)
      in s2\<lparr> trace := trace s2 @ [Dispose (Renderer (c_renderer c)),
                                   Dispose (Geometry (c_geometry c)),
                                   Dispose (Material (c_material c)),
                                   ClearScene (c_scene c)],
             scenes := modify (scenes s2) (c_scene c) (\<lambda>sc. sc\<lparr> children := [] \<rparr>) \<rparr>)"

subsection \<open>The wireframe effect\<close>

definition applyWireframe :: "viewer \<Rightarrow> viewer" where
  "applyWireframe s =
     (case currentMeshRef s of
        None \<Rightarrow> s
      | Some m \<Rightarrow>
          (case meshes s m of
             None \<Rightarrow> s
           | Some mesh \<Rightarrow>
               s\<lparr> materials := modify (materials s) (material mesh)
                     (\<lambda>mat. mat\<lparr> mat_wireframe := wireframe s, mat_needsUpdate := True \<rparr>) \<rparr>))"

section \<open>The life of the component\<close>

text \<open>
  Mounting: the states from their initialisers, the refs from their initial values,
  the mount point attached (React sets the ref before it runs the effects), then
  every effect in the order of its declaration: the three that mirror the state, the
  scene effect, the wireframe effect.
\<close>

definition initial :: "Storage \<Rightarrow> jsnum \<times> jsnum \<Rightarrow> jsnum \<Rightarrow> viewer" where
  "initial ls vp dpr =
     \<lparr> geometryKey = geometryKey_init ls,
       wireframe = wireframe_init ls,
       autoRotate = autoRotate_init ls,
       mountRef = True,
       sceneRef = None, cameraRef = None, rendererRef = None, currentMeshRef = None,
       animRef = None,
       wireframeRef = wireframe_init ls,
       autoRotateRef = autoRotate_init ls,
       cleanupFn = None,
       nextId = 0,
       scenes = Map.empty, cameras = Map.empty, renderers = Map.empty,
       geometries = Map.empty, materials = Map.empty, meshes = Map.empty,
       localStorage = ls,
       viewport = vp,
       devicePixelRatio = dpr,
       mountChildren = [],
       frameHandle = 0,
       frameCallbacks = [],
       resizeListeners = [],
       trace = [] \<rparr>"

definition mount :: "JSON \<Rightarrow> Storage \<Rightarrow> jsnum \<times> jsnum \<Rightarrow> jsnum \<Rightarrow> error + viewer" where
  "mount J ls vp dpr =
     (case initScene J (saveGeometryKey (syncAutoRotate (syncWireframe (initial ls vp dpr)))) of
        Inl e \<Rightarrow> Inl e
      | Inr s \<Rightarrow> Inr (applyWireframe s))"

text \<open>
  What can happen to a mounted component: a button of the panel, a display refresh,
  a resize of the window. Setting a state to the value it has renders nothing anew.
  When the key changes, the cleanup of the previous scene effect runs before the
  effects of the new render.
\<close>

datatype event =
    SelectShape string
  | ToggleWireframe
  | ToggleAutoRotate
  | Frame
  | Resize jsnum jsnum

definition runFrame :: "JSON \<Rightarrow> viewer \<Rightarrow> viewer" where
  "runFrame J s =
     fold (\<lambda>hc. animate J (snd hc)) (frameCallbacks s) (s\<lparr> frameCallbacks := [] \<rparr>)"

fun step :: "JSON \<Rightarrow> event \<Rightarrow> viewer \<Rightarrow> error + viewer" where
  "step J (SelectShape k) s =
     (if k = geometryKey s then Inr s
      else
        let s1 = s\<lparr> geometryKey := k \<rparr>;
            s2 = (case cleanupFn s1 of None \<Rightarrow> s1 | Some c \<Rightarrow> cleanup c s1)
        in initScene J (saveGeometryKey s2))"
| "step J ToggleWireframe s =
     Inr (applyWireframe (syncWireframe (s\<lparr> wireframe := \<not> wireframe s \<rparr>)))"
| "step J ToggleAutoRotate s = Inr (syncAutoRotate (s\<lparr> autoRotate := \<not> autoRotate s \<rparr>))"
| "step J Frame s = Inr (runFrame J s)"
| "step J (Resize w h) s = Inr (fold handleResize (resizeListeners s) (s\<lparr> viewport := (w, h) \<rparr>))"

fun run :: "JSON \<Rightarrow> event list \<Rightarrow> viewer \<Rightarrow> error + viewer" where
  "run J [] s = Inr s"
| "run J (e # es) s = (case step J e s of Inl err \<Rightarrow> Inl err | Inr s' \<Rightarrow> run J es s')"

text \<open>A mounted component after a sequence of events.\<close>

definition session ::
  "JSON \<Rightarrow> Storage \<Rightarrow> jsnum \<times> jsnum \<Rightarrow> jsnum \<Rightarrow> event list \<Rightarrow> error + viewer" where
  "session J ls vp dpr evs =
     (case mount J ls vp dpr of Inl e \<Rightarrow> Inl e | Inr s \<Rightarrow> run J evs s)"

text \<open>Unmounting detaches the mount point and runs the cleanup of the scene effect.\<close>

definition unmount :: "viewer \<Rightarrow> viewer" where
  "unmount s =
     (let s1 = s\<lparr> mountRef := False \<rparr>;
          s2 = (case cleanupFn s1 of None \<Rightarrow> s1 | Some c \<Rightarrow> cleanup c s1)
      in s2\<lparr> cleanupFn := None \<rparr>)"

section \<open>Notions used in the proofs\<close>

text \<open>
  The resources a trace creates and disposes, and the frames it renders.
  \<open>started\<close> is the state the scene effect leaves, written as one update, and
  \<open>premount\<close> the state in which the first run of the effect begins. \<open>live\<close> is what
  holds of every mounted viewer between two events: one construction is current, its
  closures are the only registered listener and the only pending frame request, and
  the refs point at its objects. \<open>accounted\<close> and \<open>settled\<close> count disposals while a
  construction is current and after its cleanup. \<open>roundtrips\<close> says that the JSON
  library reads back what it wrote, \<open>hasNumber\<close> that a value has a property of
  type number, and \<open>valid_event\<close> that a selected key is one of the catalogue's.
  \<open>is_double\<close> holds of the reals that are finite doubles, and \<open>tolerance N a d\<close> is
  the rounding error that \<open>N\<close> additions of \<open>d\<close> to \<open>a\<close> can accumulate in double
  arithmetic; it is at most \<open>(\<bar>a\<bar> + N d + 1) N / 2 ^ 52\<close> for \<open>N\<close> up to \<open>2 ^ 52\<close>.
  \<open>demoJSON\<close> is a JSON library for the examples: it knows the texts they read and
  the rotations they write, each text with the value ECMAScript gives it and each
  rotation with the text ECMAScript writes for it.
\<close>

definition is_double :: "real \<Rightarrow> bool" where
  "is_double a = (fl a = a \<and> \<bar>a\<bar> < 2 ^ 1024)"

definition tolerance :: "nat \<Rightarrow> real \<Rightarrow> real \<Rightarrow> real" where
  "tolerance N a d = (\<bar>a\<bar> + real N * d + 1) * ((1 + 1 / 2 ^ 53) ^ N - 1)"

definition started :: "JSON \<Rightarrow> GeometryInfo \<Rightarrow> viewer \<Rightarrow> viewer" where
  "started J g s =
    (let n = nextId s;
         r0 = restoreRotation J (localStorage s) (Euler (Num 0) (Num 0) (Num 0));
         r1 = (if autoRotateRef s then advance r0 else r0);
         c = \<lparr> c_scene = n, c_camera = n + 1, c_renderer = n + 2, c_geometry = n + 3, c_material = n + 4 \<rparr>
     in s\<lparr> nextId := n + 6,
        scenes := (scenes s)(n \<mapsto> \<lparr> background = 0x0a0a0a,
           children = [AmbientLight 0xffffff 0.35, DirectionalLight 0xffffff 0.9 (5, 5, 5),
              MeshObject (n + 5), AxesHelper 2, GridHelper 10 10 0x444444 0x222222] \<rparr>),
        sceneRef := Some n,
        cameras := (cameras s)(n + 1 \<mapsto>
                       \<lparr> fov = 75, aspect = js_div (fst (viewport s)) (snd (viewport s)), near = 0.1, far = 1000,
                         cam_position = (3, 2, 4) \<rparr>),
        cameraRef := Some (n + 1),
        mountChildren := (case rendererRef s of None \<Rightarrow> mountChildren s
                          | Some old \<Rightarrow> removeAll old (mountChildren s)) @ [n + 2],
        renderers := (renderers s)(n + 2 \<mapsto>
                       \<lparr> antialias = True, rsize = (fst (viewport s), snd (viewport s)),
                         pixelRatio = devicePixelRatio s \<rparr>),
        rendererRef := Some (n + 2),
        geometries := (geometries s)(n + 3 \<mapsto> create g),
        materials := (materials s)(n + 4 \<mapsto>
                      \<lparr> mat_color = color g, mat_wireframe = wireframeRef s,
                        mat_needsUpdate = False \<rparr>),
        meshes := (meshes s)(n + 5 \<mapsto> \<lparr> geometry = n + 3, material = n + 4, rotation = r1 \<rparr>),
        currentMeshRef := Some (n + 5),
        localStorage := (if autoRotateRef s
            then setItem (localStorage s) ''meshRotation'' (stringify J (rotationObject r1))
            else localStorage s),
        frameHandle := frameHandle s + 1,
        frameCallbacks := frameCallbacks s @ [(frameHandle s + 1, c)],
        animRef := Some (frameHandle s + 1),
        trace := trace s @ (case rendererRef s of None \<Rightarrow> [] | Some old \<Rightarrow> [Dispose (Renderer old)])
                   @ [Create (Renderer (n + 2)), Create (Geometry (n + 3)), Create (Material (n + 4)),
                      RequestFrame (frameHandle s + 1), Render (n + 2) n (n + 1)],
        resizeListeners := resizeListeners s @ [c],
        cleanupFn := Some c \<rparr>)"

definition created :: "action list \<Rightarrow> resource list" where
  "created tr = concat (map (\<lambda>a. case a of Create r \<Rightarrow> [r] | _ \<Rightarrow> []) tr)"

definition disposed :: "action list \<Rightarrow> resource list" where
  "disposed tr = concat (map (\<lambda>a. case a of Dispose r \<Rightarrow> [r] | _ \<Rightarrow> []) tr)"

fun rid :: "resource \<Rightarrow> nat" where
  "rid (Renderer n) = n"
| "rid (Geometry n) = n"
| "rid (Material n) = n"

fun due :: "resource \<Rightarrow> nat" where
  "due (Renderer n) = 2"
| "due (Geometry n) = 1"
| "due (Material n) = 1"

definition owned :: "construction \<Rightarrow> resource list" where
  "owned c = [Renderer (c_renderer c), Geometry (c_geometry c), Material (c_material c)]"

definition live :: "viewer \<Rightarrow> bool" where
  "live s =
     (case cleanupFn s of
        None \<Rightarrow> False
      | Some c \<Rightarrow>
          mountRef s \<and> wireframeRef s = wireframe s \<and> autoRotateRef s = autoRotate s
          \<and> geometryKey s \<in> set (Object_keys GEOMETRIES)
          \<and> rendererRef s = Some (c_renderer c) \<and> mountChildren s = [c_renderer c]
          \<and> resizeListeners s = [c]
          \<and> frameCallbacks s = [(frameHandle s, c)] \<and> animRef s = Some (frameHandle s)
          \<and> frameHandle s \<noteq> 0
          \<and> currentMeshRef s = Some (c_material c + 1)
          \<and> map_option geometry (meshes s (c_material c + 1)) = Some (c_geometry c)
          \<and> map_option material (meshes s (c_material c + 1)) = Some (c_material c)
          \<and> materials s (c_material c) \<noteq> None)"

definition lastRenderer :: "viewer \<Rightarrow> resource list" where
  "lastRenderer s = (case rendererRef s of None \<Rightarrow> [] | Some x \<Rightarrow> [Renderer x])"

definition settled :: "viewer \<Rightarrow> bool" where
  "settled s =
     (distinct (created (trace s))
      \<and> list_all (\<lambda>r. rid r < nextId s) (created (trace s))
      \<and> set (lastRenderer s) \<subseteq> set (created (trace s))
      \<and> (\<forall>r. count_list (disposed (trace s)) r =
             (if r \<in> set (created (trace s))
              then (if r \<in> set (lastRenderer s) then 1 else due r)
              else 0)))"

definition accounted :: "viewer \<Rightarrow> bool" where
  "accounted s =
     (case cleanupFn s of
        None \<Rightarrow> False
      | Some c \<Rightarrow>
          distinct (created (trace s))
          \<and> list_all (\<lambda>r. rid r < nextId s) (created (trace s))
          \<and> set (owned c) \<subseteq> set (created (trace s))
          \<and> (\<forall>r. count_list (disposed (trace s)) r =
                 (if r \<in> set (created (trace s)) \<and> r \<notin> set (owned c) then due r else 0)))"

definition rendered :: "action list \<Rightarrow> action list" where
  "rendered tr = filter (\<lambda>a. case a of Render r sc cam \<Rightarrow> True | _ \<Rightarrow> False) tr"

definition roundtrips :: "JSON \<Rightarrow> jsval \<Rightarrow> bool" where
  "roundtrips J v = (stringify J v \<noteq> [] \<and> parse J (stringify J v) = Returns v)"

definition premount :: "Storage \<Rightarrow> jsnum \<times> jsnum \<Rightarrow> jsnum \<Rightarrow> viewer" where
  "premount ls vp dpr =
     (initial ls vp dpr)\<lparr> localStorage :=
        ls(''wireframe'' \<mapsto> String_of_bool (wireframe_init ls),
           ''autoRotate'' \<mapsto> String_of_bool (autoRotate_init ls),
           ''geometryKey'' \<mapsto> geometryKey_init ls) \<rparr>"

definition rotationText :: string where
  \<open>rotationText = ''{"x":1.2,"y":0.4,"z":0}''\<close>

definition advancedText :: string where
  \<open>advancedText = ''{"x":1.21,"y":0.41500000000000004,"z":0}''\<close>

definition overflowText :: string where
  \<open>overflowText = ''{"x":1e999,"y":0,"z":0}''\<close>

definition tick1Text :: string where
  \<open>tick1Text = ''{"x":0.01,"y":0.015,"z":0}''\<close>

definition tick2Text :: string where
  \<open>tick2Text = ''{"x":0.02,"y":0.03,"z":0}''\<close>

definition tick3Text :: string where
  \<open>tick3Text = ''{"x":0.03,"y":0.045,"z":0}''\<close>

definition overflowTick1Text :: string where
  \<open>overflowTick1Text = ''{"x":null,"y":0.015,"z":0}''\<close>

definition overflowTick2Text :: string where
  \<open>overflowTick2Text = ''{"x":null,"y":0.03,"z":0}''\<close>

definition demoJSON :: JSON where
  "demoJSON =
     jsonTable
       [(rotationText, rotationObject (Euler (to_double 1.2) (to_double 0.4) (Num 0))),
        (advancedText,
           rotationObject (Euler (to_double 1.21) (to_double 0.41500000000000004) (Num 0))),
        (overflowText, rotationObject (Euler PosInf (Num 0) (Num 0))),
        (tick1Text, rotationObject (Euler (to_double 0.01) (to_double 0.015) (Num 0))),
        (tick2Text, rotationObject (Euler (to_double 0.02) (to_double 0.03) (Num 0))),
        (tick3Text, rotationObject (Euler (to_double 0.03) (to_double 0.045) (Num 0))),
        (overflowTick1Text,
           JObject [(''x'', JNull), (''y'', JNumber (to_double 0.015)), (''z'', JNumber (Num 0))]),
        (overflowTick2Text,
           JObject [(''x'', JNull), (''y'', JNumber (to_double 0.03)), (''z'', JNumber (Num 0))])]
       [(rotationObject (Euler (to_double 1.2) (to_double 0.4) (Num 0)), rotationText),
        (rotationObject (Euler (to_double 1.21) (to_double 0.41500000000000004) (Num 0)),
           advancedText),
        (rotationObject (Euler (to_double 0.01) (to_double 0.015) (Num 0)), tick1Text),
        (rotationObject (Euler (to_double 0.02) (to_double 0.03) (Num 0)), tick2Text),
        (rotationObject (Euler (to_double 0.03) (to_double 0.045) (Num 0)), tick3Text),
        (rotationObject (Euler PosInf (to_double 0.015) (Num 0)), overflowTick1Text),
        (rotationObject (Euler PosInf (to_double 0.03) (Num 0)), overflowTick2Text)]"

definition hasNumber :: "jsval \<Rightarrow> string \<Rightarrow> bool" where
  "hasNumber v k = (case getProp v k of Throws \<Rightarrow> False | Returns w \<Rightarrow> typeof w = ''number'')"

definition valid_event :: "event \<Rightarrow> bool" where
  "valid_event e = (case e of SelectShape k \<Rightarrow> k \<in> set (Object_keys GEOMETRIES) | _ \<Rightarrow> True)"

section \<open>Rounding to doubles\<close>

text \<open>
  What the proofs need of the rounding: \<open>fl\<close> moves a real by at most half a unit in
  its last place, and by at most the fraction \<open>1 / 2 ^ 53\<close> of it once it is normal; a
  rounded value is a double and rounding leaves a double as it is; adding an increment
  of magnitude at most 1 to a finite double never overflows; and \<open>N\<close> additions of the
  same increment drift from the exact sum by at most \<open>tolerance\<close>. The doubles nearest
  the decimal literals of the examples, and the sums the examples compute, are
  evaluated once and for all in \<open>double_vals\<close>.
\<close>

lemma pow2_pos [simp]: "0 < pow2 k"
  by (simp add: pow2_def)

lemma pow2_nonneg [simp]: "0 \<le> pow2 k"
  by (simp add: pow2_def)

lemma pow2_add: "pow2 (a + b) = pow2 a * pow2 b"
  by (simp add: pow2_def powr_add)

lemma pow2_nat: "pow2 (int n) = 2 ^ n"
  by (simp add: pow2_def powr_realpow)

lemma pow2_numeral: "pow2 (numeral n) = 2 ^ numeral n"
  using pow2_nat [of "numeral n"] by simp

lemma pow2_neg_numeral: "pow2 (- numeral n) = 1 / 2 ^ numeral n"
  by (simp add: pow2_def powr_neg_numeral)

lemma pow2_mono: "a \<le> b \<Longrightarrow> pow2 a \<le> pow2 b"
  by (simp add: pow2_def)

lemma ulp_scale: "pow2 (e - 52) * 2 ^ 53 = pow2 (e + 1)" "pow2 (e - 52) * 2 ^ 52 = pow2 e"
proof -
  have "e + 1 = (e - 52) + 53" "e = (e - 52) + 52" by simp_all
  then have "pow2 (e + 1) = pow2 (e - 52) * pow2 53" "pow2 e = pow2 (e - 52) * pow2 52"
    by (metis pow2_add)+
  then show "pow2 (e - 52) * 2 ^ 53 = pow2 (e + 1)" "pow2 (e - 52) * 2 ^ 52 = pow2 e"
    by (simp_all add: pow2_numeral)
qed

lemma rne_error: "\<bar>of_int (rne t) - t\<bar> \<le> 1 / 2"
  unfolding rne_def Let_def by (auto; linarith)

lemma rne_eq:
  assumes "\<bar>t - of_int m\<bar> < 1 / 2"
  shows "rne t = m"
proof -
  have "\<bar>of_int (rne t) - t\<bar> \<le> 1 / 2" by (rule rne_error)
  with assms have "\<bar>(of_int (rne t) :: real) - of_int m\<bar> < 1" by linarith
  then have "\<bar>rne t - m\<bar> < 1" by (metis of_int_abs of_int_diff of_int_less_1_iff)
  then show ?thesis by linarith
qed

lemma rne_of_int: "rne (of_int m) = m"
  by (rule rne_eq) simp

lemma rne_tie:
  assumes "t = of_int m + 1 / 2" "even m"
  shows "rne t = m"
proof -
  have "\<lfloor>t\<rfloor> = m" using assms(1) by linarith
  then show ?thesis using assms by (simp add: rne_def Let_def)
qed

lemma rne_abs_le:
  assumes "\<bar>t\<bar> < of_int M + 1 / 2"
  shows "\<bar>rne t\<bar> \<le> M"
proof -
  have "\<bar>of_int (rne t) - t\<bar> \<le> 1 / 2" by (rule rne_error)
  with assms have "\<bar>(of_int (rne t) :: real)\<bar> < of_int M + 1" by linarith
  then have "(of_int \<bar>rne t\<bar> :: real) < of_int (M + 1)" by simp
  then have "\<bar>rne t\<bar> < M + 1" by (simp only: of_int_less_iff)
  then show ?thesis by simp
qed

lemma rne_abs_ge:
  assumes "of_int M \<le> \<bar>t\<bar>"
  shows "M \<le> \<bar>rne t\<bar>"
proof -
  have "\<bar>of_int (rne t) - t\<bar> \<le> 1 / 2" by (rule rne_error)
  with assms have "(of_int M :: real) - 1 < \<bar>of_int (rne t)\<bar>" by linarith
  then have "(of_int (M - 1) :: real) < of_int \<bar>rne t\<bar>" by simp
  then have "M - 1 < \<bar>rne t\<bar>" by (simp only: of_int_less_iff)
  then show ?thesis by simp
qed

lemma fl_unfold:
  assumes "y \<noteq> 0"
    and "(pow2 e \<le> \<bar>y\<bar> \<and> - 1022 \<le> e) \<or> e = - 1022"
    and "\<bar>y\<bar> < pow2 (e + 1)"
  shows "fl y = pow2 (e - 52) * of_int (rne (y / pow2 (e - 52)))"
proof -
  have p: "0 < \<bar>y\<bar>" using assms(1) by simp
  have "max \<lfloor>log 2 \<bar>y\<bar>\<rfloor> (- 1022) = e"
  proof (cases "pow2 e \<le> \<bar>y\<bar> \<and> - 1022 \<le> e")
    case True
    then have "\<lfloor>log 2 \<bar>y\<bar>\<rfloor> = e"
      using assms(3) p by (subst floor_log_eq_powr_iff) (simp_all add: pow2_def)
    with True show ?thesis by simp
  next
    case False
    with assms(2) have e: "e = - 1022" by simp
    have "log 2 \<bar>y\<bar> < of_int (e + 1)"
      using assms(3) p by (subst log_less_iff) (simp_all add: pow2_def)
    then have "\<lfloor>log 2 \<bar>y\<bar>\<rfloor> < e + 1" by (simp only: floor_less_iff)
    with e show ?thesis by simp
  qed
  with assms(1) show ?thesis by (simp add: fl_def Let_def)
qed

lemma fl_eq:
  assumes "pow2 e \<le> \<bar>y\<bar>" "\<bar>y\<bar> < pow2 (e + 1)" "- 1022 \<le> e"
    and "rne (y / pow2 (e - 52)) = m"
  shows "fl y = pow2 (e - 52) * of_int m"
proof -
  have "0 < \<bar>y\<bar>" using assms(1) pow2_pos [of e] by linarith
  then have "y \<noteq> 0" by simp
  from fl_unfold [OF this _ assms(2)] assms(1,3,4) show ?thesis by simp
qed

lemma fl_cases:
  assumes "y \<noteq> 0"
  obtains e where "- 1022 \<le> e" "pow2 e \<le> \<bar>y\<bar> \<or> e = - 1022"
    "\<bar>y\<bar> < pow2 (e + 1)"
    "fl y = pow2 (e - 52) * of_int (rne (y / pow2 (e - 52)))"
    "e = max \<lfloor>log 2 \<bar>y\<bar>\<rfloor> (- 1022)"
proof -
  define e0 where "e0 = \<lfloor>log 2 \<bar>y\<bar>\<rfloor>"
  define e where "e = max e0 (- 1022)"
  have b: "pow2 e0 \<le> \<bar>y\<bar>" "\<bar>y\<bar> < pow2 (e0 + 1)"
    using assms floor_log_eq_powr_iff [of "\<bar>y\<bar>" 2 e0] by (simp_all add: e0_def pow2_def)
  have "pow2 (e0 + 1) \<le> pow2 (e + 1)"
    by (rule pow2_mono) (simp add: e_def)
  with b(2) have u: "\<bar>y\<bar> < pow2 (e + 1)" by linarith
  have l: "pow2 e \<le> \<bar>y\<bar> \<or> e = - 1022"
    using b(1) by (auto simp: e_def max_def)
  have "fl y = pow2 (e - 52) * of_int (rne (y / pow2 (e - 52)))"
    using assms by (simp add: fl_def Let_def e_def e0_def)
  moreover have "- 1022 \<le> e" by (simp add: e_def)
  ultimately show ?thesis using that l u by (simp add: e_def e0_def)
qed

lemma fl_error: "\<bar>fl y - y\<bar> \<le> \<bar>y\<bar> / 2 ^ 53 + 1 / 2 ^ 1075"
proof (cases "y = 0")
  case True
  then show ?thesis by (simp add: fl_def)
next
  case False
  from fl_cases [OF False] obtain e where e: "- 1022 \<le> e" "pow2 e \<le> \<bar>y\<bar> \<or> e = - 1022"
    "fl y = pow2 (e - 52) * of_int (rne (y / pow2 (e - 52)))"
    by blast
  define u :: real where "u = pow2 (e - 52)"
  have u: "0 < u" by (simp add: u_def)
  have f: "fl y = u * of_int (rne (y / u))" using e(3) by (simp add: u_def)
  have "fl y - y = u * (of_int (rne (y / u)) - y / u)"
    using u by (simp add: f right_diff_distrib)
  then have "\<bar>fl y - y\<bar> = u * \<bar>of_int (rne (y / u)) - y / u\<bar>"
    using u by (simp add: abs_mult)
  also have "\<dots> \<le> u * (1 / 2)"
    using u rne_error [of "y / u"] by (intro mult_left_mono) simp_all
  finally have b: "\<bar>fl y - y\<bar> \<le> u / 2" by simp
  define h :: real where "h = 1 / 2 ^ 1075"
  have h: "0 \<le> h" by (simp add: h_def)
  from e(2) have "u / 2 \<le> \<bar>y\<bar> / 2 ^ 53 + h"
  proof
    assume "pow2 e \<le> \<bar>y\<bar>"
    then have "u * 2 ^ 52 \<le> \<bar>y\<bar>" by (simp only: ulp_scale(2) u_def)
    then have "u / 2 \<le> \<bar>y\<bar> / 2 ^ 53" by simp
    with h show ?thesis by linarith
  next
    assume "e = - 1022"
    then have "u = 1 / 2 ^ 1074" by (simp add: u_def pow2_neg_numeral)
    then have "u / 2 = h" by (simp add: h_def)
    then show ?thesis by simp
  qed
  with b have "\<bar>fl y - y\<bar> \<le> \<bar>y\<bar> / 2 ^ 53 + h" by linarith
  then show ?thesis by (simp only: h_def)
qed

lemma fl_mantissa:
  assumes "- 1022 \<le> e" "\<bar>m\<bar> < 2 ^ 53" "2 ^ 52 \<le> \<bar>m\<bar> \<or> e = - 1022"
  shows "fl (pow2 (e - 52) * of_int m) = pow2 (e - 52) * of_int m"
proof (cases "m = 0")
  case True
  then show ?thesis by (simp add: fl_def)
next
  case False
  define u :: real where "u = pow2 (e - 52)"
  have u: "0 < u" by (simp add: u_def)
  have n: "u * of_int m \<noteq> 0" using u False by simp
  have a: "\<bar>u * of_int m\<bar> = u * of_int \<bar>m\<bar>" using u by (simp add: abs_mult)
  have "(of_int \<bar>m\<bar> :: real) < of_int (2 ^ 53)" using assms(2) by (simp only: of_int_less_iff)
  then have "(of_int \<bar>m\<bar> :: real) < 2 ^ 53" by simp
  then have "u * of_int \<bar>m\<bar> < u * 2 ^ 53" using u by (simp only: mult_less_cancel_left_pos)
  then have hi: "\<bar>u * of_int m\<bar> < pow2 (e + 1)"
    unfolding a by (simp only: u_def ulp_scale(1))
  have lo: "(pow2 e \<le> \<bar>u * of_int m\<bar> \<and> - 1022 \<le> e) \<or> e = - 1022"
  proof (cases "e = - 1022")
    case True
    then show ?thesis by simp
  next
    case False
    with assms(3) have "2 ^ 52 \<le> \<bar>m\<bar>" by simp
    then have "(of_int (2 ^ 52) :: real) \<le> of_int \<bar>m\<bar>" by (simp only: of_int_le_iff)
    then have "(2 ^ 52 :: real) \<le> of_int \<bar>m\<bar>" by simp
    then have "u * 2 ^ 52 \<le> u * of_int \<bar>m\<bar>" using u by (simp only: mult_le_cancel_left_pos)
    then have "pow2 e \<le> \<bar>u * of_int m\<bar>"
      unfolding a by (simp only: u_def ulp_scale(2))
    with assms(1) show ?thesis by simp
  qed
  have "u * of_int m / u = of_int m" using u by simp
  with fl_unfold [OF n lo hi] show ?thesis
    by (simp add: u_def [symmetric] rne_of_int)
qed

lemma fl_idem: "fl (fl y) = fl y"
proof (cases "y = 0")
  case True
  then show ?thesis by (simp add: fl_def)
next
  case False
  from fl_cases [OF False] obtain e where e: "- 1022 \<le> e" "pow2 e \<le> \<bar>y\<bar> \<or> e = - 1022"
    "\<bar>y\<bar> < pow2 (e + 1)"
    "fl y = pow2 (e - 52) * of_int (rne (y / pow2 (e - 52)))"
    by blast
  define u :: real where "u = pow2 (e - 52)"
  define m where "m = rne (y / u)"
  have u: "0 < u" by (simp add: u_def)
  have f: "fl y = u * of_int m" using e(4) by (simp add: u_def m_def)
  have q: "\<bar>y / u\<bar> = \<bar>y\<bar> / u" using u by simp
  have "\<bar>y\<bar> < u * 2 ^ 53" using e(3) by (simp only: ulp_scale(1) u_def)
  then have "\<bar>y / u\<bar> < 2 ^ 53" using u by (simp add: q pos_divide_less_eq mult.commute)
  moreover have "(of_int (2 ^ 53) :: real) = 2 ^ 53" by simp
  ultimately have "\<bar>y / u\<bar> < of_int (2 ^ 53) + 1 / 2" by linarith
  then have mh: "\<bar>m\<bar> \<le> 2 ^ 53" unfolding m_def by (rule rne_abs_le)
  have ml: "2 ^ 52 \<le> \<bar>m\<bar> \<or> e = - 1022"
  proof (cases "e = - 1022")
    case True
    then show ?thesis by simp
  next
    case False
    with e(2) have "pow2 e \<le> \<bar>y\<bar>" by simp
    then have "u * 2 ^ 52 \<le> \<bar>y\<bar>" by (simp only: ulp_scale(2) u_def)
    then have "2 ^ 52 \<le> \<bar>y / u\<bar>" using u by (simp add: q pos_le_divide_eq mult.commute)
    moreover have "(of_int (2 ^ 52) :: real) = 2 ^ 52" by simp
    ultimately have "of_int (2 ^ 52) \<le> \<bar>y / u\<bar>" by linarith
    then have "2 ^ 52 \<le> \<bar>m\<bar>" unfolding m_def by (rule rne_abs_ge)
    then show ?thesis by simp
  qed
  show ?thesis
  proof (cases "\<bar>m\<bar> < 2 ^ 53")
    case True
    from fl_mantissa [OF e(1) True ml] show ?thesis by (simp add: f u_def)
  next
    case False
    with mh have m: "\<bar>m\<bar> = 2 ^ 53" by simp
    define m' where "m' = m div 2"
    have "m = 2 ^ 53 \<or> m = - (2 ^ 53)" using m by linarith
    then have m': "m = 2 * m'" "\<bar>m'\<bar> = 2 ^ 52" by (auto simp: m'_def)
    have s: "pow2 (e + 1 - 52) = u * 2"
      using pow2_add [of "e - 52" 1] pow2_nat [of 1] by (simp add: u_def)
    have "fl (pow2 (e + 1 - 52) * of_int m') = pow2 (e + 1 - 52) * of_int m'"
      using e(1) m'(2) by (intro fl_mantissa) simp_all
    then have "fl (u * 2 * of_int m') = u * 2 * of_int m'" by (simp only: s)
    then show ?thesis by (simp add: f m'(1) ac_simps)
  qed
qed

lemma pow2_0: "pow2 0 = 1"
  by (simp add: pow2_def)

lemma pow2_1: "pow2 1 = 2"
  by (simp add: pow2_def)

lemma pow2_Suc: "pow2 (k + 1) = 2 * pow2 k"
  using pow2_add [of k 1] by (simp add: pow2_1)

lemma pow2_minus_1: "pow2 (- 1) = 1 / 2"
  using pow2_add [of "- 1" 1] by (simp add: pow2_0 pow2_1)

lemmas pow2_simps = pow2_0 pow2_1 pow2_minus_1 pow2_numeral pow2_neg_numeral

lemma rne_near:
  assumes "\<bar>t - of_int m\<bar> < 1 / 2 \<or> (\<bar>t - of_int m\<bar> = 1 / 2 \<and> even m)"
  shows "rne t = m"
  using assms
proof
  assume "\<bar>t - of_int m\<bar> < 1 / 2"
  then show ?thesis by (rule rne_eq)
next
  assume a: "\<bar>t - of_int m\<bar> = 1 / 2 \<and> even m"
  then consider "t = of_int m + 1 / 2" | "t = of_int (m - 1) + 1 / 2" by (auto simp: abs_if split: if_splits)
  then show ?thesis
  proof cases
    case 1
    with a show ?thesis by (intro rne_tie) simp_all
  next
    case 2
    then have "\<lfloor>t\<rfloor> = m - 1" by linarith
    with 2 a show ?thesis by (simp add: rne_def Let_def)
  qed
qed

lemma exponent_le:
  assumes "y \<noteq> 0" "\<bar>y\<bar> < pow2 (k + 1)"
  shows "\<lfloor>log 2 \<bar>y\<bar>\<rfloor> \<le> k"
proof -
  have "log 2 \<bar>y\<bar> < of_int (k + 1)"
    using assms by (subst log_less_iff) (simp_all add: pow2_def)
  then have "\<lfloor>log 2 \<bar>y\<bar>\<rfloor> < k + 1" by (simp only: floor_less_iff)
  then show ?thesis by simp
qed

lemma fl_near:
  assumes "\<bar>y\<bar> < pow2 (k + 1)" "- 1022 \<le> k"
  shows "\<bar>fl y - y\<bar> \<le> pow2 (k - 53)"
proof (cases "y = 0")
  case True
  then show ?thesis by (simp add: fl_def)
next
  case False
  from fl_cases [OF False] obtain e where
    e: "fl y = pow2 (e - 52) * of_int (rne (y / pow2 (e - 52)))"
      "e = max \<lfloor>log 2 \<bar>y\<bar>\<rfloor> (- 1022)"
    by blast
  define u :: real where "u = pow2 (e - 52)"
  have u: "0 < u" by (simp add: u_def)
  have f: "fl y = u * of_int (rne (y / u))" using e(1) by (simp add: u_def)
  have "fl y - y = u * (of_int (rne (y / u)) - y / u)"
    using u by (simp add: f right_diff_distrib)
  then have "\<bar>fl y - y\<bar> = u * \<bar>of_int (rne (y / u)) - y / u\<bar>"
    using u by (simp add: abs_mult)
  also have "\<dots> \<le> u * (1 / 2)"
    using u rne_error [of "y / u"] by (intro mult_left_mono) simp_all
  finally have b: "\<bar>fl y - y\<bar> \<le> u / 2" by simp
  have "e \<le> k" using exponent_le [OF False assms(1)] assms(2) by (simp add: e(2))
  then have "pow2 (e - 53 + 1) \<le> pow2 (k - 53 + 1)" by (intro pow2_mono) simp
  then have "2 * pow2 (e - 53) \<le> 2 * pow2 (k - 53)" by (simp only: pow2_Suc)
  moreover have "u = 2 * pow2 (e - 53)" using pow2_Suc [of "e - 53"] by (simp add: u_def)
  ultimately show ?thesis using b by linarith
qed

lemma fl_abs_le:
  assumes "\<bar>y\<bar> < pow2 (k + 1)" "- 1022 \<le> k"
  shows "\<bar>fl y\<bar> \<le> pow2 (k + 1)"
proof (cases "y = 0")
  case True
  then show ?thesis by (simp add: fl_def)
next
  case False
  from fl_cases [OF False] obtain e where
    e: "\<bar>y\<bar> < pow2 (e + 1)" "fl y = pow2 (e - 52) * of_int (rne (y / pow2 (e - 52)))"
      "e = max \<lfloor>log 2 \<bar>y\<bar>\<rfloor> (- 1022)"
    by blast
  define u :: real where "u = pow2 (e - 52)"
  define m where "m = rne (y / u)"
  have u: "0 < u" by (simp add: u_def)
  have f: "fl y = u * of_int m" using e(2) by (simp add: u_def m_def)
  have q: "\<bar>y / u\<bar> = \<bar>y\<bar> / u" using u by simp
  have "\<bar>y\<bar> < u * 2 ^ 53" using e(1) by (simp only: ulp_scale(1) u_def)
  then have "\<bar>y / u\<bar> < 2 ^ 53" using u by (simp add: q pos_divide_less_eq mult.commute)
  moreover have "(of_int (2 ^ 53) :: real) = 2 ^ 53" by simp
  ultimately have "\<bar>y / u\<bar> < of_int (2 ^ 53) + 1 / 2" by linarith
  then have "\<bar>m\<bar> \<le> 2 ^ 53" unfolding m_def by (rule rne_abs_le)
  then have "(of_int \<bar>m\<bar> :: real) \<le> of_int (2 ^ 53)" by (simp only: of_int_le_iff)
  then have "(of_int \<bar>m\<bar> :: real) \<le> 2 ^ 53" by simp
  then have "u * of_int \<bar>m\<bar> \<le> u * 2 ^ 53" using u by (simp only: mult_le_cancel_left_pos)
  then have "\<bar>fl y\<bar> \<le> pow2 (e + 1)"
    using u by (simp only: f abs_mult u_def ulp_scale(1))
  moreover have "e \<le> k" using exponent_le [OF False assms(1)] assms(2) by (simp add: e(3))
  then have "pow2 (e + 1) \<le> pow2 (k + 1)" by (intro pow2_mono) simp
  ultimately show ?thesis by linarith
qed

lemma fl_lt_max:
  assumes "\<bar>fl y\<bar> < pow2 1024"
  shows "\<bar>fl y\<bar> \<le> pow2 1024 - pow2 971"
proof (cases "y = 0")
  case True
  have "pow2 971 \<le> pow2 1024" by (rule pow2_mono) simp
  with True show ?thesis by (simp add: fl_def)
next
  case False
  from fl_cases [OF False] obtain e where
    e: "- 1022 \<le> e" "pow2 e \<le> \<bar>y\<bar> \<or> e = - 1022" "\<bar>y\<bar> < pow2 (e + 1)"
      "fl y = pow2 (e - 52) * of_int (rne (y / pow2 (e - 52)))"
    by blast
  show ?thesis
  proof (cases "e \<le> 1022")
    case True
    from fl_abs_le [OF e(3) e(1)] have "\<bar>fl y\<bar> \<le> pow2 (e + 1)" .
    also have "\<dots> \<le> pow2 1023" using True by (intro pow2_mono) simp
    also have "\<dots> \<le> pow2 1024 - pow2 971"
    proof -
      have "pow2 971 \<le> pow2 1023" by (rule pow2_mono) simp
      moreover have "pow2 1024 = 2 * pow2 1023" using pow2_Suc [of 1023] by simp
      ultimately show ?thesis by linarith
    qed
    finally show ?thesis .
  next
    case False
    define u :: real where "u = pow2 (e - 52)"
    define m where "m = rne (y / u)"
    have u: "0 < u" by (simp add: u_def)
    have f: "fl y = u * of_int m" using e(4) by (simp add: u_def m_def)
    have a: "\<bar>fl y\<bar> = u * of_int \<bar>m\<bar>" using u by (simp add: f abs_mult)
    from False e(2) have l: "pow2 e \<le> \<bar>y\<bar>" by auto
    have q: "\<bar>y / u\<bar> = \<bar>y\<bar> / u" using u by simp
    from l have "u * 2 ^ 52 \<le> \<bar>y\<bar>" by (simp only: ulp_scale(2) u_def)
    then have "2 ^ 52 \<le> \<bar>y / u\<bar>" using u by (simp add: q pos_le_divide_eq mult.commute)
    moreover have "(of_int (2 ^ 52) :: real) = 2 ^ 52" by simp
    ultimately have "of_int (2 ^ 52) \<le> \<bar>y / u\<bar>" by linarith
    then have "2 ^ 52 \<le> \<bar>m\<bar>" unfolding m_def by (rule rne_abs_ge)
    then have "(of_int (2 ^ 52) :: real) \<le> of_int \<bar>m\<bar>" by (simp only: of_int_le_iff)
    then have "(2 ^ 52 :: real) \<le> of_int \<bar>m\<bar>" by simp
    then have "u * 2 ^ 52 \<le> u * of_int \<bar>m\<bar>" using u by (simp only: mult_le_cancel_left_pos)
    then have "pow2 e \<le> \<bar>fl y\<bar>" unfolding a by (simp only: u_def ulp_scale(2))
    with assms have "pow2 e < pow2 1024" by linarith
    then have "e < 1024" using pow2_mono [of 1024 e] by (cases "e < 1024") auto
    with False have e1: "e = 1023" by simp
    then have u1: "u = pow2 971" by (simp add: u_def)
    have t: "pow2 1024 = u * 2 ^ 53" using ulp_scale(1) [of 1023] by (simp add: u1)
    from assms have "u * of_int \<bar>m\<bar> < u * 2 ^ 53" by (simp only: a t)
    then have "(of_int \<bar>m\<bar> :: real) < 2 ^ 53" using u by (simp only: mult_less_cancel_left_pos)
    then have "(of_int \<bar>m\<bar> :: real) < of_int (2 ^ 53)" by simp
    then have "\<bar>m\<bar> < 2 ^ 53" by (simp only: of_int_less_iff)
    then have "\<bar>m\<bar> \<le> 2 ^ 53 - 1" by simp
    then have "(of_int \<bar>m\<bar> :: real) \<le> of_int (2 ^ 53 - 1)" by (simp only: of_int_le_iff)
    then have "(of_int \<bar>m\<bar> :: real) \<le> 2 ^ 53 - 1" by simp
    then have "u * of_int \<bar>m\<bar> \<le> u * (2 ^ 53 - 1)" using u by (simp only: mult_le_cancel_left_pos)
    also have "\<dots> = pow2 1024 - pow2 971" by (simp only: t u1 right_diff_distrib mult_1_right)
    finally show ?thesis by (simp only: a)
  qed
qed

lemma is_double_fl: "\<bar>fl y\<bar> < 2 ^ 1024 \<Longrightarrow> is_double (fl y)"
  by (simp add: is_double_def fl_idem)

lemma to_double_finite: "\<bar>fl y\<bar> < 2 ^ 1024 \<Longrightarrow> to_double y = Num (fl y)"
  by (simp add: to_double_def abs_if split: if_splits)

lemma double_add:
  assumes "is_double a" "\<bar>d\<bar> \<le> 1"
  shows "js_add (Num a) (Num d) = Num (fl (a + d))" "is_double (fl (a + d))"
proof -
  have p: "pow2 1024 = 2 ^ 1024" by (simp only: pow2_numeral)
  from assms(1) have "\<bar>fl a\<bar> < pow2 1024" by (simp add: is_double_def p)
  then have "\<bar>fl a\<bar> \<le> pow2 1024 - pow2 971" by (rule fl_lt_max)
  then have a: "\<bar>a\<bar> \<le> pow2 1024 - pow2 971" using assms(1) by (simp add: is_double_def)
  have "pow2 0 \<le> pow2 969" by (rule pow2_mono) simp
  then have o: "1 \<le> pow2 969" by (simp add: pow2_0)
  have h: "pow2 970 = 2 * pow2 969" "pow2 971 = 2 * pow2 970"
    using pow2_Suc [of 969] pow2_Suc [of 970] by simp_all
  from a assms(2) o h have y: "\<bar>a + d\<bar> < pow2 1024 - pow2 970" by linarith
  have "0 < pow2 970" by (rule pow2_pos)
  with y have "\<bar>a + d\<bar> < pow2 1024" by linarith
  then have "\<bar>a + d\<bar> < pow2 (1023 + 1)" by simp
  then have "\<bar>fl (a + d) - (a + d)\<bar> \<le> pow2 (1023 - 53)" by (rule fl_near) simp
  then have "\<bar>fl (a + d) - (a + d)\<bar> \<le> pow2 970" by simp
  with y have "\<bar>fl (a + d)\<bar> < pow2 1024" by linarith
  then have b: "\<bar>fl (a + d)\<bar> < 2 ^ 1024" by (simp only: p)
  from b show "is_double (fl (a + d))" by (rule is_double_fl)
  from b show "js_add (Num a) (Num d) = Num (fl (a + d))" by (simp add: to_double_finite)
qed

lemma to_double_small:
  assumes "0 \<le> d" "d \<le> 1 / 4"
  shows "to_double d = Num (fl d)" "\<bar>fl d\<bar> \<le> 1 / 2" "\<bar>fl d - d\<bar> \<le> d / 2 ^ 53 + 1 / 2 ^ 1075"
proof -
  have "\<bar>d\<bar> < pow2 (- 2 + 1)" using assms by (simp add: pow2_simps)
  then have "\<bar>fl d\<bar> \<le> pow2 (- 2 + 1)" by (rule fl_abs_le) simp
  then show b: "\<bar>fl d\<bar> \<le> 1 / 2" by (simp add: pow2_simps)
  have "(1 / 2 :: real) < 2 ^ 1024" by simp
  with b have "\<bar>fl d\<bar> < 2 ^ 1024" by linarith
  then show "to_double d = Num (fl d)" by (rule to_double_finite)
  from fl_error [of d] assms(1) show "\<bar>fl d - d\<bar> \<le> d / 2 ^ 53 + 1 / 2 ^ 1075" by simp
qed

lemma add_drift:
  assumes "is_double a" "0 \<le> d" "d \<le> 1 / 4"
  shows "\<exists>x. ((\<lambda>v. js_add v (to_double d)) ^^ N) (Num a) = Num x \<and> is_double x
     \<and> \<bar>x - (a + real N * d)\<bar> \<le> tolerance N a d"
proof (induction N)
  case 0
  with assms(1) show ?case by (simp add: tolerance_def)
next
  case (Suc N)
  then obtain x where x: "((\<lambda>v. js_add v (to_double d)) ^^ N) (Num a) = Num x" "is_double x"
    "\<bar>x - (a + real N * d)\<bar> \<le> tolerance N a d"
    by blast
  define h :: real where "h = 1 / 2 ^ 1075"
  define c where "c = fl d"
  define nd where "nd = real N * d"
  define P :: real where "P = (1 + 1 / 2 ^ 53) ^ N"
  define B where "B = \<bar>a\<bar> + nd + 1"
  define x' where "x' = fl (x + c)"
  have h: "0 \<le> h" "h \<le> 1 / 2 ^ 56"
    by (simp_all add: h_def)
  have nd: "0 \<le> nd" using assms(2) by (simp add: nd_def)
  have P: "1 \<le> P" unfolding P_def by (rule one_le_power) simp
  have c: "to_double d = Num c" "\<bar>c\<bar> \<le> 1 / 2" "\<bar>c - d\<bar> \<le> d / 2 ^ 53 + h"
    using to_double_small [OF assms(2,3)] by (simp_all add: c_def h_def)
  from c(2) have c1: "\<bar>c\<bar> \<le> 1" by simp
  have s: "js_add (Num x) (Num c) = Num x'" "is_double x'"
    using double_add [OF x(2) c1] by (simp_all add: x'_def)
  have f1: "\<bar>x' - (x + c)\<bar> \<le> \<bar>x + c\<bar> / 2 ^ 53 + h"
    using fl_error [of "x + c"] by (simp add: x'_def h_def)
  have ih: "\<bar>x - (a + nd)\<bar> \<le> B * (P - 1)"
    using x(3) by (simp add: tolerance_def nd_def B_def P_def)
  have p: "(2::real) ^ 53 = 9007199254740992" "(2::real) ^ 56 = 72057594037927936" by simp_all
  define E where "E = \<bar>x - (a + nd)\<bar>"
  define F where "F = \<bar>x' - (x + c)\<bar>"
  define G where "G = \<bar>c - d\<bar>"
  define Y where "Y = \<bar>x + c\<bar>"
  define A where "A = \<bar>a\<bar>"
  have t1: "Y \<le> E + A + nd + 1 / 2"
    unfolding Y_def E_def A_def using c(2) nd by linarith
  have t2: "\<bar>x' - (a + nd + d)\<bar> \<le> F + E + G"
    unfolding F_def E_def G_def by linarith
  have t3: "F \<le> Y / 2 ^ 53 + h" "G \<le> d / 2 ^ 53 + h"
    using f1 c(3) by (simp_all only: F_def Y_def G_def)
  have "F + E + G \<le> E + E / 2 ^ 53 + (A + nd + 1) / 2 ^ 53"
    using t3 h t1 assms(3) unfolding p by argo
  moreover define u :: real where "u = 1 / 2 ^ 53"
  moreover have "E + E / 2 ^ 53 + (A + nd + 1) / 2 ^ 53 = (1 + u) * E + B * u"
    by (simp add: u_def B_def A_def add_divide_distrib distrib_right)
  ultimately have "\<bar>x' - (a + nd + d)\<bar> \<le> (1 + u) * E + B * u"
    using t2 by linarith
  also have "\<dots> \<le> (1 + u) * (B * (P - 1)) + B * u"
    using ih unfolding E_def by (intro add_right_mono mult_left_mono) (simp_all add: u_def)
  also have "\<dots> = B * ((1 + u) * P - 1)"
    by (simp add: algebra_simps)
  also have "\<dots> \<le> (B + d) * ((1 + u) * P - 1)"
  proof (rule mult_right_mono)
    show "B \<le> B + d" using assms(2) by simp
    have "0 \<le> u" by (simp add: u_def)
    then have "0 \<le> u * P" using P by simp
    then show "0 \<le> (1 + u) * P - 1" using P by (simp add: distrib_right)
  qed
  also have "\<dots> = tolerance (Suc N) a d"
    by (simp add: tolerance_def B_def nd_def P_def u_def distrib_right add.commute add.left_commute)
  finally have e: "\<bar>x' - (a + real (Suc N) * d)\<bar> \<le> tolerance (Suc N) a d"
    by (simp add: nd_def distrib_right add.commute add.left_commute)
  have "((\<lambda>v. js_add v (to_double d)) ^^ Suc N) (Num a) = Num x'"
    using x(1) s(1) by (simp add: c(1))
  with s(2) e show ?case by blast
qed

lemma iterate_nonfinite:
  assumes "\<not> isFinite v" "0 \<le> d" "d \<le> 1 / 4"
  shows "((\<lambda>v. js_add v (to_double d)) ^^ N) v = v"
proof (induction N)
  case 0
  show ?case by simp
next
  case (Suc N)
  with assms(1) to_double_small(1) [OF assms(2,3)] show ?case by (cases v) simp_all
qed

lemma is_double_iff: "is_double a \<longleftrightarrow> to_double a = Num a"
  by (auto simp: is_double_def to_double_def abs_if split: if_splits)

lemma tolerance_le:
  assumes "N \<le> 2 ^ 52" "0 \<le> d"
  shows "tolerance N a d \<le> (\<bar>a\<bar> + real N * d + 1) * (real N / 2 ^ 52)"
proof -
  define u :: real where "u = 1 / 2 ^ 53"
  have u: "0 \<le> u" by (simp add: u_def)
  have "k \<le> N \<Longrightarrow> (1 + u) ^ k - 1 \<le> 2 * real k * u" for k
  proof (induction k)
    case 0
    show ?case by simp
  next
    case (Suc k)
    then have ih: "(1 + u) ^ k - 1 \<le> 2 * real k * u" by simp
    from Suc(2) assms(1) have "real k \<le> 2 ^ 52" by simp
    then have "2 * real k * u \<le> 1" by (simp add: u_def)
    then have "(2 * real k * u) * u \<le> 1 * u" using u by (rule mult_right_mono)
    then have s: "2 * real k * u * u \<le> u" by simp
    have "(1 + u) ^ Suc k - 1 = (1 + u) * ((1 + u) ^ k - 1) + u" by (simp add: algebra_simps)
    also have "\<dots> \<le> (1 + u) * (2 * real k * u) + u"
      using ih u by (intro add_right_mono mult_left_mono) simp_all
    also have "\<dots> = 2 * real k * u + 2 * real k * u * u + u" by (simp add: algebra_simps)
    also have "\<dots> \<le> 2 * real (Suc k) * u" using s by (simp add: algebra_simps)
    finally show ?case .
  qed
  then have "(1 + u) ^ N - 1 \<le> 2 * real N * u" by simp
  also have "\<dots> = real N / 2 ^ 52" by (simp add: u_def)
  finally have "(1 + 1 / 2 ^ 53) ^ N - 1 \<le> real N / 2 ^ 52" by (simp add: u_def)
  moreover have "0 \<le> \<bar>a\<bar> + real N * d + 1" using assms(2) by simp
  ultimately show ?thesis unfolding tolerance_def by (rule mult_left_mono)
qed

lemma fl_finite:
  assumes "\<bar>y\<bar> \<le> 2 ^ 1023"
  shows "\<bar>fl y\<bar> < 2 ^ 1024"
proof -
  have p: "pow2 1023 = 2 ^ 1023" "pow2 1024 = 2 ^ 1024" by (simp_all only: pow2_numeral)
  have h: "pow2 1024 = 2 * pow2 1023" using pow2_Suc [of 1023] by simp
  have "pow2 970 \<le> pow2 1022" by (rule pow2_mono) simp
  moreover have "pow2 1023 = 2 * pow2 1022" using pow2_Suc [of 1022] by simp
  moreover have "0 < pow2 1022" by (rule pow2_pos)
  ultimately have l: "pow2 970 < pow2 1023" by linarith
  from assms have y: "\<bar>y\<bar> \<le> pow2 1023" by (simp only: p)
  moreover have "0 < pow2 1023" by (rule pow2_pos)
  ultimately have "\<bar>y\<bar> < pow2 1024" using h by linarith
  then have "\<bar>y\<bar> < pow2 (1023 + 1)" by simp
  then have "\<bar>fl y - y\<bar> \<le> pow2 (1023 - 53)" by (rule fl_near) simp
  then have "\<bar>fl y - y\<bar> \<le> pow2 970" by simp
  with y l h have "\<bar>fl y\<bar> < pow2 1024" by linarith
  then show ?thesis by (simp only: p)
qed

lemma to_double_number: "to_double y \<noteq> NaN"
  by (simp add: to_double_def)

lemma to_double_eval:
  assumes "pow2 e \<le> \<bar>y\<bar>" "\<bar>y\<bar> < pow2 (e + 1)" "- 1022 \<le> e" "e \<le> 1022"
    and "\<bar>y / pow2 (e - 52) - of_int m\<bar> < 1 / 2
         \<or> (\<bar>y / pow2 (e - 52) - of_int m\<bar> = 1 / 2 \<and> even m)"
  shows "to_double y = Num (pow2 (e - 52) * of_int m)"
proof -
  have "rne (y / pow2 (e - 52)) = m" using assms(5) by (rule rne_near)
  with assms(1-3) have f: "fl y = pow2 (e - 52) * of_int m" by (rule fl_eq)
  from fl_abs_le [OF assms(2,3)] have "\<bar>fl y\<bar> \<le> pow2 (e + 1)" .
  also have "\<dots> \<le> pow2 1023" using assms(4) by (intro pow2_mono) simp
  also have "\<dots> < pow2 1024" using pow2_Suc [of 1023] pow2_pos [of 1023] by simp
  finally have "\<bar>fl y\<bar> < 2 ^ 1024" by (simp only: pow2_numeral)
  then show ?thesis by (simp only: to_double_finite f)
qed

lemma double_001: "to_double 0.01 = Num (5764607523034235 / 2 ^ 59)"
  using to_double_eval [of "- 7" "0.01" 5764607523034235] by (simp add: pow2_simps)

lemma double_0015: "to_double 0.015 = Num (1080863910568919 / 2 ^ 56)"
  using to_double_eval [of "- 7" "0.015" 8646911284551352] by (simp add: pow2_simps)

lemma double_12: "to_double 1.2 = Num (5404319552844595 / 2 ^ 52)"
  using to_double_eval [of 0 "1.2" 5404319552844595] by (simp add: pow2_simps)

lemma double_04: "to_double 0.4 = Num (3602879701896397 / 2 ^ 53)"
  using to_double_eval [of "- 2" "0.4" 7205759403792794] by (simp add: pow2_simps)

lemma double_121: "to_double 1.21 = Num (1362338887279575 / 2 ^ 50)"
  using to_double_eval [of 0 "1.21" 5449355549118300] by (simp add: pow2_simps)

lemma double_0415: "to_double 0.41500000000000004 = Num (467248461339689 / 2 ^ 50)"
  using to_double_eval [of "- 2" "0.41500000000000004" 7475975381435024] by (simp add: pow2_simps)

lemma double_002: "to_double 0.02 = Num (5764607523034235 / 2 ^ 58)"
  using to_double_eval [of "- 6" "0.02" 5764607523034235] by (simp add: pow2_simps)

lemma double_003: "to_double 0.03 = Num (1080863910568919 / 2 ^ 55)"
  using to_double_eval [of "- 6" "0.03" 8646911284551352] by (simp add: pow2_simps)

lemma double_0045: "to_double 0.045 = Num (3242591731706757 / 2 ^ 56)"
  using to_double_eval [of "- 5" "0.045" 6485183463413514] by (simp add: pow2_simps)

lemma increment_absorbed: "js_add (Num (2 ^ 53)) (to_double 0.01) = Num (2 ^ 53)"
proof -
  have "to_double (2 ^ 53 + 5764607523034235 / 2 ^ 59) = Num (pow2 (53 - 52) * of_int (2 ^ 52))"
    by (rule to_double_eval) (simp_all add: pow2_simps)
  then show ?thesis using double_001 by (simp add: pow2_simps)
qed

lemma sum_0_001: "to_double (5764607523034235 / 2 ^ 59) = Num (5764607523034235 / 2 ^ 59)"
  using to_double_eval [of "- 7" "5764607523034235 / 2 ^ 59" 5764607523034235] by (simp add: pow2_simps)

lemma sum_0_0015: "to_double (1080863910568919 / 2 ^ 56) = Num (1080863910568919 / 2 ^ 56)"
  using to_double_eval [of "- 7" "1080863910568919 / 2 ^ 56" 8646911284551352] by (simp add: pow2_simps)

lemma sum_001_001:
  "to_double (5764607523034235 / 2 ^ 59 + 5764607523034235 / 2 ^ 59) = Num (5764607523034235 / 2 ^ 58)"
  using to_double_eval [of "- 6" "5764607523034235 / 2 ^ 59 + 5764607523034235 / 2 ^ 59" 5764607523034235]
  by (simp add: pow2_simps)

lemma sum_002_001:
  "to_double (5764607523034235 / 2 ^ 58 + 5764607523034235 / 2 ^ 59) = Num (1080863910568919 / 2 ^ 55)"
  using to_double_eval [of "- 6" "5764607523034235 / 2 ^ 58 + 5764607523034235 / 2 ^ 59" 8646911284551352]
  by (simp add: pow2_simps)

lemma sum_0015_0015:
  "to_double (1080863910568919 / 2 ^ 56 + 1080863910568919 / 2 ^ 56) = Num (1080863910568919 / 2 ^ 55)"
  using to_double_eval [of "- 6" "1080863910568919 / 2 ^ 56 + 1080863910568919 / 2 ^ 56" 8646911284551352]
  by (simp add: pow2_simps)

lemma sum_003_0015:
  "to_double (1080863910568919 / 2 ^ 55 + 1080863910568919 / 2 ^ 56) = Num (3242591731706757 / 2 ^ 56)"
  using to_double_eval [of "- 5" "1080863910568919 / 2 ^ 55 + 1080863910568919 / 2 ^ 56" 6485183463413514]
  by (simp add: pow2_simps)

lemma sum_12_001:
  "to_double (5404319552844595 / 2 ^ 52 + 5764607523034235 / 2 ^ 59) = Num (1362338887279575 / 2 ^ 50)"
  using to_double_eval [of 0 "5404319552844595 / 2 ^ 52 + 5764607523034235 / 2 ^ 59" 5449355549118300]
  by (simp add: pow2_simps)

lemma sum_04_0015:
  "to_double (3602879701896397 / 2 ^ 53 + 1080863910568919 / 2 ^ 56) = Num (467248461339689 / 2 ^ 50)"
  using to_double_eval [of "- 2" "3602879701896397 / 2 ^ 53 + 1080863910568919 / 2 ^ 56" 7475975381435024]
  by (simp add: pow2_simps)

lemmas double_vals =
  double_001 [simplified] double_0015 [simplified] double_12 [simplified] double_04 [simplified]
  double_121 [simplified] double_0415 [simplified] double_002 [simplified] double_003 [simplified] double_0045 [simplified]
  sum_0_001 [simplified] sum_0_0015 [simplified] sum_001_001 [simplified] sum_002_001 [simplified]
  sum_0015_0015 [simplified] sum_003_0015 [simplified] sum_12_001 [simplified] sum_04_0015 [simplified]

section \<open>The effects, written out, and what they preserve\<close>

lemma keys: "Object_keys GEOMETRIES = [''box'', ''sphere'', ''plane'', ''cone'', ''cylinder'', ''torus'', ''torusKnot'', ''ring'']"
  by (simp add: Object_keys_def GEOMETRIES_def)

lemma geometryKey_init_valid: "geometryKey_init ls \<in> set (Object_keys GEOMETRIES)"
  by (simp add: geometryKey_init_def keys split: option.split)

lemma lookup_valid: "k \<in> set (Object_keys GEOMETRIES) \<Longrightarrow> \<exists>g. map_of GEOMETRIES k = Some g"
  by (metis Object_keys_def map_of_eq_None_iff not_Some_eq set_map)

lemma createScene_eq:
  "createScene s =
    (\<lparr> c_scene = nextId s, c_camera = nextId s + 1, c_renderer = nextId s + 2,
            c_geometry = nextId s + 3, c_material = nextId s + 4 \<rparr>,
     s\<lparr> nextId := nextId s + 6,
        scenes := (scenes s)(nextId s \<mapsto> \<lparr> background = 0x0a0a0a, children = [AmbientLight 0xffffff 0.35, DirectionalLight 0xffffff 0.9 (5, 5, 5)] \<rparr>),
        sceneRef := Some (nextId s),
        cameras := (cameras s)(nextId s + 1 \<mapsto>
                       \<lparr> fov = 75, aspect = js_div (fst (viewport s)) (snd (viewport s)), near = 0.1, far = 1000,
                         cam_position = (3, 2, 4) \<rparr>),
        cameraRef := Some (nextId s + 1),
        trace := trace s @ (case rendererRef s of None \<Rightarrow> [] | Some old \<Rightarrow> [Dispose (Renderer old)])
                   @ [Create (Renderer (nextId s + 2))],
        mountChildren := (case rendererRef s of None \<Rightarrow> mountChildren s
                          | Some old \<Rightarrow> removeAll old (mountChildren s)) @ [nextId s + 2],
        renderers := (renderers s)(nextId s + 2 \<mapsto>
                       \<lparr> antialias = True, rsize = (fst (viewport s), snd (viewport s)),
                         pixelRatio = devicePixelRatio s \<rparr>),
        rendererRef := Some (nextId s + 2) \<rparr>)"
  by (cases "rendererRef s") (simp_all add: createScene_def Let_def addToScene_def modify_def)

lemma createMesh_eq:
  "scenes s (c_scene c) = Some sc \<Longrightarrow> createMesh J g c s =
     s\<lparr> geometries := (geometries s)(c_geometry c \<mapsto> create g),
        materials := (materials s)(c_material c \<mapsto>
                      \<lparr> mat_color = color g, mat_wireframe = wireframeRef s,
                        mat_needsUpdate = False \<rparr>),
        trace := trace s @ [Create (Geometry (c_geometry c)), Create (Material (c_material c))],
        meshes := (meshes s)(c_material c + 1 \<mapsto>
                       \<lparr> geometry = c_geometry c, material = c_material c,
                         rotation = restoreRotation J (localStorage s)
                                      (Euler (Num 0) (Num 0) (Num 0)) \<rparr>),
        currentMeshRef := Some (c_material c + 1),
        scenes := (scenes s)(c_scene c \<mapsto> sc\<lparr> children := children sc @
            [MeshObject (c_material c + 1), AxesHelper 2, GridHelper 10 10 0x444444 0x222222] \<rparr>) \<rparr>"
  by (simp add: createMesh_def Let_def addToScene_def modify_def)

lemma animate_eq:
  "animate J c s =
     s\<lparr> frameHandle := frameHandle s + 1,
        frameCallbacks := frameCallbacks s @ [(frameHandle s + 1, c)],
        animRef := Some (frameHandle s + 1),
        meshes := (if autoRotateRef s then meshes (rotateAndSave J s) else meshes s),
        localStorage := (if autoRotateRef s then localStorage (rotateAndSave J s) else localStorage s),
        trace := trace s @ [RequestFrame (frameHandle s + 1),
                            Render (c_renderer c) (c_scene c) (c_camera c)] \<rparr>"
  by (simp add: animate_def requestAnimationFrame_def Let_def rotateAndSave_def split: option.split)

lemma rotateAndSave_eq:
  "currentMeshRef s = Some m \<Longrightarrow> meshes s m = Some mesh \<Longrightarrow>
   rotateAndSave J s = s\<lparr> meshes := (meshes s)(m \<mapsto> mesh\<lparr> rotation := advance (rotation mesh) \<rparr>),
                  localStorage :=
                    setItem (localStorage s) ''meshRotation''
                      (stringify J (rotationObject (advance (rotation mesh)))) \<rparr>"
  by (simp add: rotateAndSave_def)

lemma initScene_eq:
  assumes "mountRef s" "map_of GEOMETRIES (geometryKey s) = Some g"
  shows "initScene J s = Inr (started J g s)"
proof -
  have "initScene J s = Inr (animate J (fst (createScene s)) (createMesh J g (fst (createScene s)) (snd (createScene s)))
      \<lparr> resizeListeners := resizeListeners s @ [fst (createScene s)], cleanupFn := Some (fst (createScene s)) \<rparr>)"
    using assms by (simp add: initScene_def createScene_eq createMesh_eq animate_eq Let_def)
  also have "\<dots> = Inr (started J g s)"
    unfolding sum.inject
    by (rule viewer.equality)
       (simp_all add: createScene_eq createMesh_eq animate_eq rotateAndSave_eq started_def Let_def ac_simps)
  finally show ?thesis .
qed

lemma created_simps [simp]:
  "created [] = []"
  "created (Create r # tr) = r # created tr"
  "created (Dispose r # tr) = created tr"
  "created (RequestFrame h # tr) = created tr"
  "created (CancelFrame h # tr) = created tr"
  "created (Render a b c # tr) = created tr"
  "created (ClearScene n # tr) = created tr"
  "created (tr @ tr') = created tr @ created tr'"
  by (simp_all add: created_def)

lemma disposed_simps [simp]:
  "disposed [] = []"
  "disposed (Create r # tr) = disposed tr"
  "disposed (Dispose r # tr) = r # disposed tr"
  "disposed (RequestFrame h # tr) = disposed tr"
  "disposed (CancelFrame h # tr) = disposed tr"
  "disposed (Render a b c # tr) = disposed tr"
  "disposed (ClearScene n # tr) = disposed tr"
  "disposed (tr @ tr') = disposed tr @ disposed tr'"
  by (simp_all add: disposed_def)

lemma live_started:
  assumes "mountRef s" "wireframeRef s = wireframe s" "autoRotateRef s = autoRotate s"
    "geometryKey s \<in> set (Object_keys GEOMETRIES)" "resizeListeners s = []" "frameCallbacks s = []"
    "case rendererRef s of None \<Rightarrow> mountChildren s = [] | Some r \<Rightarrow> mountChildren s = [r]"
  shows "live (started J g s)"
  using assms by (simp add: live_def started_def Let_def split: option.splits)

lemma accounted_started:
  assumes "settled s"
  shows "accounted (started J g s)"
proof (cases "rendererRef s")
  case None
  with assms show ?thesis
    by (auto simp: accounted_def settled_def started_def Let_def owned_def list_all_iff lastRenderer_def)
next
  case (Some x)
  with assms show ?thesis
    by (auto simp: accounted_def settled_def started_def Let_def owned_def list_all_iff lastRenderer_def)
qed

lemma cleanup_eq:
  assumes "animRef s = Some h" "h \<noteq> 0"
  shows "cleanup c s =
     s\<lparr> resizeListeners := removeAll c (resizeListeners s),
        frameCallbacks := filter (\<lambda>hc. fst hc \<noteq> h) (frameCallbacks s),
        trace := trace s @ [CancelFrame h, Dispose (Renderer (c_renderer c)),
                            Dispose (Geometry (c_geometry c)), Dispose (Material (c_material c)),
                            ClearScene (c_scene c)],
        scenes := modify (scenes s) (c_scene c) (\<lambda>sc. sc\<lparr> children := [] \<rparr>) \<rparr>"
  using assms by (simp add: cleanup_def cancelAnimationFrame_def Let_def)

lemma applyWireframe_eq:
  assumes "currentMeshRef s = Some m" "meshes s m = Some mesh" "materials s (material mesh) = Some mat"
  shows "applyWireframe s =
     s\<lparr> materials := (materials s)(material mesh \<mapsto>
           mat\<lparr> mat_wireframe := wireframe s, mat_needsUpdate := True \<rparr>) \<rparr>"
  using assms by (simp add: applyWireframe_def modify_def)

lemma live_fields:
  assumes "live s"
  obtains c mesh mat where
    "cleanupFn s = Some c" "mountRef s" "wireframeRef s = wireframe s"
    "autoRotateRef s = autoRotate s" "geometryKey s \<in> set (Object_keys GEOMETRIES)"
    "rendererRef s = Some (c_renderer c)" "mountChildren s = [c_renderer c]"
    "resizeListeners s = [c]"
    "frameCallbacks s = [(frameHandle s, c)]" "animRef s = Some (frameHandle s)"
    "frameHandle s \<noteq> 0"
    "currentMeshRef s = Some (c_material c + 1)"
    "meshes s (c_material c + 1) = Some mesh" "geometry mesh = c_geometry c"
    "material mesh = c_material c" "materials s (c_material c) = Some mat"
proof -
  from assms obtain c where c: "cleanupFn s = Some c"
    by (cases "cleanupFn s") (simp_all add: live_def)
  from assms c obtain mesh where m: "meshes s (c_material c + 1) = Some mesh"
    by (cases "meshes s (c_material c + 1)") (simp_all add: live_def)
  from assms c obtain mat where mt: "materials s (c_material c) = Some mat"
    by (cases "materials s (c_material c)") (simp_all add: live_def)
  from assms c m mt that [of c mesh mat] show thesis
    by (simp add: live_def)
qed

lemma accounted_cong:
  assumes "cleanupFn s' = cleanupFn s" "created (trace s') = created (trace s)"
    "disposed (trace s') = disposed (trace s)" "nextId s' = nextId s"
  shows "accounted s' = accounted s"
  using assms by (cases "cleanupFn s") (simp_all add: accounted_def)

lemma settled_cleanup:
  assumes "live s" "accounted s" "cleanupFn s = Some c"
  shows "settled (cleanup c s)"
proof -
  from assms(1) have a: "animRef s = Some (frameHandle s)" "frameHandle s \<noteq> 0"
    by (auto elim: live_fields)
  from assms(1,3) have r: "rendererRef s = Some (c_renderer c)"
    by (auto elim: live_fields)
  show ?thesis
    using assms(2,3) r
    by (auto simp: cleanup_eq [OF a] settled_def accounted_def owned_def lastRenderer_def)
qed

lemma initScene_Inr:
  assumes "initScene J s = Inr s'" "mountRef s"
  shows "\<exists>g. map_of GEOMETRIES (geometryKey s) = Some g \<and> s' = started J g s"
proof (cases "map_of GEOMETRIES (geometryKey s)")
  case None
  with assms show ?thesis by (simp add: initScene_def createScene_eq)
next
  case (Some g)
  with assms show ?thesis by (simp add: initScene_eq)
qed

lemma map_of_keys: "map_of GEOMETRIES k = Some g \<Longrightarrow> k \<in> set (Object_keys GEOMETRIES)"
  by (metis Object_keys_def map_of_SomeD fst_conv image_eqI set_map)

lemma select_preserves:
  assumes "live s" "accounted s" "step J (SelectShape k) s = Inr s'"
  shows "live s' \<and> accounted s'"
proof (cases "k = geometryKey s")
  case True
  with assms show ?thesis by simp
next
  case False
  from assms(1) obtain c where c: "cleanupFn s = Some c" and mr: "mountRef s"
    and refs: "wireframeRef s = wireframe s" "autoRotateRef s = autoRotate s"
    and rr: "rendererRef s = Some (c_renderer c)" "mountChildren s = [c_renderer c]"
    and ls: "resizeListeners s = [c]" "frameCallbacks s = [(frameHandle s, c)]"
    and a: "animRef s = Some (frameHandle s)" "frameHandle s \<noteq> 0"
    by (auto elim: live_fields)
  define p where "p = saveGeometryKey (cleanup c (s\<lparr> geometryKey := k \<rparr>))"
  have a': "animRef (s\<lparr> geometryKey := k \<rparr>) = Some (frameHandle s)" using a by simp
  have p_eq: "p = (cleanup c s)\<lparr> geometryKey := k,
      localStorage := setItem (localStorage s) ''geometryKey'' k \<rparr>"
    by (simp add: p_def saveGeometryKey_def cleanup_eq [OF a' a(2)] cleanup_eq [OF a])
  have st: "initScene J p = Inr s'"
    using assms(3) False c by (simp add: p_def)
  have s0: "settled (cleanup c s)" using settled_cleanup [OF assms(1,2) c] .
  have sp: "settled p" using s0 by (simp add: settled_def p_eq lastRenderer_def)
  have mp: "mountRef p" using mr by (simp add: p_eq cleanup_eq [OF a])
  from initScene_Inr [OF st mp] obtain g where g: "map_of GEOMETRIES (geometryKey p) = Some g" "s' = started J g p"
    by blast
  have kp: "geometryKey p = k" by (simp add: p_eq)
  have "live (started J g p)"
    using mr refs rr ls map_of_keys [OF g(1)]
    by (intro live_started) (simp_all add: p_eq cleanup_eq [OF a])
  moreover have "accounted (started J g p)" using sp by (rule accounted_started)
  ultimately show ?thesis using g by simp
qed

lemma toggleWireframe_eq:
  assumes "live s"
  obtains c mat where "cleanupFn s = Some c" "materials s (c_material c) = Some mat"
    "applyWireframe (syncWireframe (s\<lparr> wireframe := \<not> wireframe s \<rparr>)) =
      s\<lparr> wireframe := \<not> wireframe s, wireframeRef := \<not> wireframe s,
         localStorage := setItem (localStorage s) ''wireframe'' (String_of_bool (\<not> wireframe s)),
         materials := (materials s)(c_material c \<mapsto>
           mat\<lparr> mat_wireframe := \<not> wireframe s, mat_needsUpdate := True \<rparr>) \<rparr>"
proof -
  from assms obtain c mesh mat where f: "cleanupFn s = Some c"
    "currentMeshRef s = Some (c_material c + 1)"
    "meshes s (c_material c + 1) = Some mesh"
    "material mesh = c_material c" "materials s (c_material c) = Some mat"
    by (auto elim: live_fields)
  define t where "t = syncWireframe (s\<lparr> wireframe := \<not> wireframe s \<rparr>)"
  have t: "t = s\<lparr> wireframe := \<not> wireframe s, wireframeRef := \<not> wireframe s,
         localStorage := setItem (localStorage s) ''wireframe'' (String_of_bool (\<not> wireframe s)) \<rparr>"
    by (simp add: t_def syncWireframe_def)
  have "applyWireframe t = t\<lparr> materials := (materials t)(material mesh \<mapsto>
           mat\<lparr> mat_wireframe := wireframe t, mat_needsUpdate := True \<rparr>) \<rparr>"
    using f by (intro applyWireframe_eq [where m = "c_material c + 1"]) (simp_all add: t)
  then show thesis using that [of c mat] f by (simp add: t flip: t_def)
qed

lemma toggleWireframe_preserves:
  assumes "live s" "accounted s"
  shows "live (applyWireframe (syncWireframe (s\<lparr> wireframe := \<not> wireframe s \<rparr>)))"
    and "accounted (applyWireframe (syncWireframe (s\<lparr> wireframe := \<not> wireframe s \<rparr>)))"
proof -
  from assms(1) obtain c mat where e: "cleanupFn s = Some c" "materials s (c_material c) = Some mat"
    "applyWireframe (syncWireframe (s\<lparr> wireframe := \<not> wireframe s \<rparr>)) =
      s\<lparr> wireframe := \<not> wireframe s, wireframeRef := \<not> wireframe s,
         localStorage := setItem (localStorage s) ''wireframe'' (String_of_bool (\<not> wireframe s)),
         materials := (materials s)(c_material c \<mapsto>
           mat\<lparr> mat_wireframe := \<not> wireframe s, mat_needsUpdate := True \<rparr>) \<rparr>"
    by (rule toggleWireframe_eq)
  show "live (applyWireframe (syncWireframe (s\<lparr> wireframe := \<not> wireframe s \<rparr>)))"
    using assms(1) e(1) by (simp add: e(3) live_def)
  have "accounted (applyWireframe (syncWireframe (s\<lparr> wireframe := \<not> wireframe s \<rparr>))) = accounted s"
    by (rule accounted_cong) (simp_all add: e(3))
  then show "accounted (applyWireframe (syncWireframe (s\<lparr> wireframe := \<not> wireframe s \<rparr>)))"
    using assms(2) by simp
qed

lemma toggleAutoRotate_preserves:
  assumes "live s" "accounted s"
  shows "live (syncAutoRotate (s\<lparr> autoRotate := \<not> autoRotate s \<rparr>))"
    and "accounted (syncAutoRotate (s\<lparr> autoRotate := \<not> autoRotate s \<rparr>))"
proof -
  show "live (syncAutoRotate (s\<lparr> autoRotate := \<not> autoRotate s \<rparr>))"
    using assms(1) by (cases "cleanupFn s") (simp_all add: live_def syncAutoRotate_def)
  have "accounted (syncAutoRotate (s\<lparr> autoRotate := \<not> autoRotate s \<rparr>)) = accounted s"
    by (rule accounted_cong) (simp_all add: syncAutoRotate_def)
  then show "accounted (syncAutoRotate (s\<lparr> autoRotate := \<not> autoRotate s \<rparr>))"
    using assms(2) by simp
qed

lemma runFrame_eq:
  assumes "frameCallbacks s = [(h, c)]"
  shows "runFrame J s = animate J c (s\<lparr> frameCallbacks := [] \<rparr>)"
  using assms by (simp add: runFrame_def)

lemma frame_eq:
  assumes "live s"
  obtains c mesh where "cleanupFn s = Some c" "meshes s (c_material c + 1) = Some mesh"
    "runFrame J s =
       s\<lparr> frameHandle := frameHandle s + 1,
          frameCallbacks := [(frameHandle s + 1, c)],
          animRef := Some (frameHandle s + 1),
          meshes := (if autoRotate s
                     then (meshes s)(c_material c + 1 \<mapsto> mesh\<lparr> rotation := advance (rotation mesh) \<rparr>)
                     else meshes s),
          localStorage := (if autoRotate s
                     then setItem (localStorage s) ''meshRotation''
                            (stringify J (rotationObject (advance (rotation mesh))))
                     else localStorage s),
          trace := trace s @ [RequestFrame (frameHandle s + 1),
                              Render (c_renderer c) (c_scene c) (c_camera c)] \<rparr>"
proof -
  from assms obtain c mesh where f: "cleanupFn s = Some c"
    "frameCallbacks s = [(frameHandle s, c)]" "autoRotateRef s = autoRotate s"
    "currentMeshRef s = Some (c_material c + 1)"
    "meshes s (c_material c + 1) = Some mesh"
    by (auto elim: live_fields)
  have m': "currentMeshRef (s\<lparr> frameCallbacks := [] \<rparr>) = Some (c_material c + 1)"
      "meshes (s\<lparr> frameCallbacks := [] \<rparr>) (c_material c + 1) = Some mesh"
    using f by simp_all
  have "runFrame J s = animate J c (s\<lparr> frameCallbacks := [] \<rparr>)"
    using f(2) by (rule runFrame_eq)
  also have "\<dots> = s\<lparr> frameHandle := frameHandle s + 1,
          frameCallbacks := [(frameHandle s + 1, c)],
          animRef := Some (frameHandle s + 1),
          meshes := (if autoRotate s
                     then (meshes s)(c_material c + 1 \<mapsto> mesh\<lparr> rotation := advance (rotation mesh) \<rparr>)
                     else meshes s),
          localStorage := (if autoRotate s
                     then setItem (localStorage s) ''meshRotation''
                            (stringify J (rotationObject (advance (rotation mesh))))
                     else localStorage s),
          trace := trace s @ [RequestFrame (frameHandle s + 1),
                              Render (c_renderer c) (c_scene c) (c_camera c)] \<rparr>"
    by (simp add: animate_eq rotateAndSave_eq [OF m'] f(3))
  finally show thesis using that [of c mesh] f by simp
qed

lemma frame_preserves:
  assumes "live s" "accounted s"
  shows "live (runFrame J s)" and "accounted (runFrame J s)"
proof -
  from assms(1) obtain c mesh where e: "cleanupFn s = Some c" "meshes s (c_material c + 1) = Some mesh"
    "runFrame J s =
       s\<lparr> frameHandle := frameHandle s + 1,
          frameCallbacks := [(frameHandle s + 1, c)],
          animRef := Some (frameHandle s + 1),
          meshes := (if autoRotate s
                     then (meshes s)(c_material c + 1 \<mapsto> mesh\<lparr> rotation := advance (rotation mesh) \<rparr>)
                     else meshes s),
          localStorage := (if autoRotate s
                     then setItem (localStorage s) ''meshRotation''
                            (stringify J (rotationObject (advance (rotation mesh))))
                     else localStorage s),
          trace := trace s @ [RequestFrame (frameHandle s + 1),
                              Render (c_renderer c) (c_scene c) (c_camera c)] \<rparr>"
    by (rule frame_eq)
  show "live (runFrame J s)"
    using assms(1) e(1,2) by (simp add: e(3) live_def)
  have "accounted (runFrame J s) = accounted s"
    by (rule accounted_cong) (simp_all add: e(3))
  then show "accounted (runFrame J s)"
    using assms(2) by simp
qed

lemma handleResize_fields:
  "cleanupFn (handleResize c s) = cleanupFn s" "trace (handleResize c s) = trace s"
  "nextId (handleResize c s) = nextId s"
  by (simp_all add: handleResize_def Let_def)

lemma live_handleResize: "live (handleResize c s) = live s"
  by (cases "cleanupFn s") (simp_all add: handleResize_def Let_def live_def)

lemma resize_preserves:
  assumes "live s" "accounted s"
  shows "live (fold handleResize (resizeListeners s) (s\<lparr> viewport := (w, h) \<rparr>))"
    and "accounted (fold handleResize (resizeListeners s) (s\<lparr> viewport := (w, h) \<rparr>))"
proof -
  from assms(1) obtain c where c: "resizeListeners s = [c]"
    by (auto elim: live_fields)
  have i: "live (s\<lparr> viewport := (w, h) \<rparr>)"
    using assms(1) by (cases "cleanupFn s") (simp_all add: live_def)
  show "live (fold handleResize (resizeListeners s) (s\<lparr> viewport := (w, h) \<rparr>))"
    using i by (simp add: c live_handleResize)
  have "accounted (fold handleResize (resizeListeners s) (s\<lparr> viewport := (w, h) \<rparr>)) = accounted s"
    by (rule accounted_cong) (simp_all add: c handleResize_fields)
  then show "accounted (fold handleResize (resizeListeners s) (s\<lparr> viewport := (w, h) \<rparr>))"
    using assms(2) by simp
qed

lemma step_preserves:
  assumes "live s" "accounted s" "step J e s = Inr s'"
  shows "live s' \<and> accounted s'"
proof (cases e)
  case (SelectShape k)
  with assms show ?thesis using select_preserves by blast
next
  case ToggleWireframe
  with assms toggleWireframe_preserves [OF assms(1,2)] show ?thesis by auto
next
  case ToggleAutoRotate
  with assms toggleAutoRotate_preserves [OF assms(1,2)] show ?thesis by auto
next
  case Frame
  with assms frame_preserves [OF assms(1,2)] show ?thesis by auto
next
  case (Resize w h)
  with assms resize_preserves [OF assms(1,2)] show ?thesis by auto
qed

lemma run_preserves:
  assumes "live s" "accounted s" "run J evs s = Inr s'"
  shows "live s' \<and> accounted s'"
  using assms
proof (induction evs arbitrary: s)
  case Nil
  then show ?case by simp
next
  case (Cons e evs)
  from Cons.prems(3) obtain s1 where s1: "step J e s = Inr s1" "run J evs s1 = Inr s'"
    by (auto split: sum.splits)
  from step_preserves [OF Cons.prems(1,2) s1(1)] Cons.IH [OF _ _ s1(2)] show ?case by blast
qed

lemma premount_eq:
  "saveGeometryKey (syncAutoRotate (syncWireframe (initial ls vp dpr))) = premount ls vp dpr"
  by (simp add: premount_def saveGeometryKey_def syncAutoRotate_def syncWireframe_def
      initial_def setItem_def)

lemma live_premount_started: "live (started J g (premount ls vp dpr))"
  by (rule live_started) (simp_all add: premount_def initial_def geometryKey_init_valid)

lemma settled_premount: "settled (premount ls vp dpr)"
  by (simp add: settled_def premount_def initial_def lastRenderer_def)

lemma applyWireframe_live:
  assumes "live s" "wireframe s = w"
  obtains c mat where "cleanupFn s = Some c" "materials s (c_material c) = Some mat"
    "applyWireframe s =
       s\<lparr> materials := (materials s)(c_material c \<mapsto>
           mat\<lparr> mat_wireframe := w, mat_needsUpdate := True \<rparr>) \<rparr>"
proof -
  from assms obtain c mesh mat where f: "cleanupFn s = Some c"
    "currentMeshRef s = Some (c_material c + 1)"
    "meshes s (c_material c + 1) = Some mesh"
    "material mesh = c_material c" "materials s (c_material c) = Some mat"
    by (auto elim: live_fields)
  have "applyWireframe s = s\<lparr> materials := (materials s)(material mesh \<mapsto>
           mat\<lparr> mat_wireframe := wireframe s, mat_needsUpdate := True \<rparr>) \<rparr>"
    using f by (intro applyWireframe_eq [where m = "c_material c + 1"]) simp_all
  then show thesis using that [of c mat] f assms(2) by simp
qed

lemma mount_eq:
  obtains g where "map_of GEOMETRIES (geometryKey_init ls) = Some g"
    "mount J ls vp dpr = Inr (applyWireframe (started J g (premount ls vp dpr)))"
proof -
  from lookup_valid [OF geometryKey_init_valid] obtain g
    where g: "map_of GEOMETRIES (geometryKey_init ls) = Some g" by blast
  have "initScene J (premount ls vp dpr) = Inr (started J g (premount ls vp dpr))"
    by (rule initScene_eq) (simp_all add: premount_def initial_def g)
  then have "mount J ls vp dpr = Inr (applyWireframe (started J g (premount ls vp dpr)))"
    by (simp add: mount_def premount_eq)
  with g that show thesis by blast
qed

lemma live_mount:
  assumes "mount J ls vp dpr = Inr s"
  shows "live s \<and> accounted s"
proof -
  obtain g where g: "mount J ls vp dpr = Inr (applyWireframe (started J g (premount ls vp dpr)))"
    by (rule mount_eq)
  define t where "t = started J g (premount ls vp dpr)"
  have wt: "live t" unfolding t_def by (rule live_premount_started)
  have tt: "accounted t" unfolding t_def by (rule accounted_started) (rule settled_premount)
  from wt obtain c mat where e: "cleanupFn t = Some c" "materials t (c_material c) = Some mat"
    "applyWireframe t =
       t\<lparr> materials := (materials t)(c_material c \<mapsto>
           mat\<lparr> mat_wireframe := wireframe t, mat_needsUpdate := True \<rparr>) \<rparr>"
    by (rule applyWireframe_live [OF _ refl])
  have "live (applyWireframe t)" using wt e(1) by (simp add: e(3) live_def)
  moreover have "accounted (applyWireframe t) = accounted t"
    by (rule accounted_cong) (simp_all add: e(3))
  ultimately show ?thesis using assms g tt by (simp add: t_def)
qed

lemma reachable_live:
  assumes "mount J ls vp dpr = Inr s0" "run J evs s0 = Inr s"
  shows "live s \<and> accounted s"
  using live_mount [OF assms(1)] run_preserves [OF _ _ assms(2)] by blast

lemma mount_total: "\<exists>s. mount J ls vp dpr = Inr s"
  using mount_eq [of ls J vp dpr] by metis

lemma step_total:
  assumes "live s" "case e of SelectShape k \<Rightarrow> k \<in> set (Object_keys GEOMETRIES) | _ \<Rightarrow> True"
  shows "\<exists>s'. step J e s = Inr s'"
proof (cases e)
  case (SelectShape k)
  show ?thesis
  proof (cases "k = geometryKey s")
    case True
    with SelectShape show ?thesis by simp
  next
    case False
    from assms(1) obtain c where c: "cleanupFn s = Some c" and mr: "mountRef s"
      and a: "animRef s = Some (frameHandle s)" "frameHandle s \<noteq> 0"
      by (auto elim: live_fields)
    from assms(2) SelectShape lookup_valid obtain g where g: "map_of GEOMETRIES k = Some g"
      by auto
    have a': "animRef (s\<lparr> geometryKey := k \<rparr>) = Some (frameHandle s)" using a by simp
    have "initScene J (saveGeometryKey (cleanup c (s\<lparr> geometryKey := k \<rparr>))) =
          Inr (started J g (saveGeometryKey (cleanup c (s\<lparr> geometryKey := k \<rparr>))))"
      using mr g by (intro initScene_eq) (simp_all add: saveGeometryKey_def cleanup_eq [OF a' a(2)])
    with False c SelectShape show ?thesis by simp
  qed
qed simp_all

lemma run_append:
  "run J (xs @ ys) s = (case run J xs s of Inl e \<Rightarrow> Inl e | Inr s' \<Rightarrow> run J ys s')"
  by (induction xs arbitrary: s) (simp_all split: sum.splits)

lemma advance_funpow:
  "(advance ^^ N) r =
     Euler (((\<lambda>v. js_add v (to_double 0.01)) ^^ N) (euler_x r))
           (((\<lambda>v. js_add v (to_double 0.015)) ^^ N) (euler_y r))
           (euler_z r)"
proof (induction N)
  case 0
  show ?case by simp
next
  case (Suc N)
  have "(advance ^^ Suc N) r = advance ((advance ^^ N) r)" by simp
  also have "\<dots> = advance (Euler (((\<lambda>v. js_add v (to_double 0.01)) ^^ N) (euler_x r))
           (((\<lambda>v. js_add v (to_double 0.015)) ^^ N) (euler_y r)) (euler_z r))"
    by (simp only: Suc)
  also have "\<dots> = Euler (((\<lambda>v. js_add v (to_double 0.01)) ^^ Suc N) (euler_x r))
           (((\<lambda>v. js_add v (to_double 0.015)) ^^ Suc N) (euler_y r)) (euler_z r)"
    by (simp add: advance_def)
  finally show ?case .
qed

lemma rendered_simps [simp]:
  "rendered [] = []"
  "rendered (tr @ tr') = rendered tr @ rendered tr'"
  "rendered (Render r sc cam # tr) = Render r sc cam # rendered tr"
  "rendered (RequestFrame h # tr) = rendered tr"
  "rendered (CancelFrame h # tr) = rendered tr"
  "rendered (Create res # tr) = rendered tr"
  "rendered (Dispose res # tr) = rendered tr"
  "rendered (ClearScene sc # tr) = rendered tr"
  by (simp_all add: rendered_def)

lemma live_frame:
  assumes "live s"
  shows "live (runFrame J s)"
proof -
  from assms obtain c mesh where e: "cleanupFn s = Some c" "meshes s (c_material c + 1) = Some mesh"
    "runFrame J s =
       s\<lparr> frameHandle := frameHandle s + 1,
          frameCallbacks := [(frameHandle s + 1, c)],
          animRef := Some (frameHandle s + 1),
          meshes := (if autoRotate s
                     then (meshes s)(c_material c + 1 \<mapsto> mesh\<lparr> rotation := advance (rotation mesh) \<rparr>)
                     else meshes s),
          localStorage := (if autoRotate s
                     then setItem (localStorage s) ''meshRotation''
                            (stringify J (rotationObject (advance (rotation mesh))))
                     else localStorage s),
          trace := trace s @ [RequestFrame (frameHandle s + 1),
                              Render (c_renderer c) (c_scene c) (c_camera c)] \<rparr>"
    by (rule frame_eq)
  show ?thesis
    using assms e(1,2) by (simp add: e(3) live_def)
qed

lemma frames_off:
  assumes "live s" "\<not> autoRotate s" "cleanupFn s = Some c"
  shows "\<exists>s'. run J (replicate N Frame) s = Inr s' \<and> live s' \<and> cleanupFn s' = Some c
     \<and> \<not> autoRotate s' \<and> currentMeshRef s' = currentMeshRef s \<and> meshes s' = meshes s
     \<and> localStorage s' = localStorage s
     \<and> rendered (trace s') =
         rendered (trace s) @ replicate N (Render (c_renderer c) (c_scene c) (c_camera c))"
proof (induction N)
  case 0
  with assms show ?case by simp
next
  case (Suc N)
  then obtain t where t: "run J (replicate N Frame) s = Inr t" "live t" "cleanupFn t = Some c"
    "\<not> autoRotate t" "currentMeshRef t = currentMeshRef s" "meshes t = meshes s"
    "localStorage t = localStorage s"
    "rendered (trace t) =
         rendered (trace s) @ replicate N (Render (c_renderer c) (c_scene c) (c_camera c))"
    by blast
  from t(2) obtain c' mesh where e: "cleanupFn t = Some c'"
    "runFrame J t =
       t\<lparr> frameHandle := frameHandle t + 1,
          frameCallbacks := [(frameHandle t + 1, c')],
          animRef := Some (frameHandle t + 1),
          meshes := (if autoRotate t
                     then (meshes t)(c_material c' + 1 \<mapsto> mesh\<lparr> rotation := advance (rotation mesh) \<rparr>)
                     else meshes t),
          localStorage := (if autoRotate t
                     then setItem (localStorage t) ''meshRotation''
                            (stringify J (rotationObject (advance (rotation mesh))))
                     else localStorage t),
          trace := trace t @ [RequestFrame (frameHandle t + 1),
                              Render (c_renderer c') (c_scene c') (c_camera c')] \<rparr>"
    by (rule frame_eq)
  from e(1) t(3) have cc: "c' = c" by simp
  have l: "live (runFrame J t)" using t(2) by (rule live_frame)
  have rs: "replicate (Suc N) Frame = replicate N Frame @ [Frame]"
    by (simp add: replicate_append_same)
  have r: "run J (replicate (Suc N) Frame) s = Inr (runFrame J t)"
    unfolding rs by (simp add: run_append t(1))
  show ?case
    unfolding r using l t(3-8)
    by (simp add: e(2) cc replicate_append_same)
qed

lemma frames_on:
  assumes "live s" "autoRotate s" "cleanupFn s = Some c" "meshes s (c_material c + 1) = Some mesh"
  shows "\<exists>s'. run J (replicate N Frame) s = Inr s' \<and> live s' \<and> cleanupFn s' = Some c
     \<and> autoRotate s' \<and> currentMeshRef s' = currentMeshRef s
     \<and> meshes s' (c_material c + 1) = Some (mesh\<lparr> rotation := (advance ^^ N) (rotation mesh) \<rparr>)
     \<and> (if N = 0 then localStorage s' = localStorage s
         else getItem (localStorage s') ''meshRotation'' =
              Some (stringify J (rotationObject ((advance ^^ N) (rotation mesh)))))
     \<and> rendered (trace s') =
         rendered (trace s) @ replicate N (Render (c_renderer c) (c_scene c) (c_camera c))"
proof (induction N)
  case 0
  with assms show ?case by simp
next
  case (Suc N)
  then obtain t where t: "run J (replicate N Frame) s = Inr t" "live t" "cleanupFn t = Some c"
    "autoRotate t" "currentMeshRef t = currentMeshRef s"
    "meshes t (c_material c + 1) = Some (mesh\<lparr> rotation := (advance ^^ N) (rotation mesh) \<rparr>)"
    "rendered (trace t) =
         rendered (trace s) @ replicate N (Render (c_renderer c) (c_scene c) (c_camera c))"
    by blast
  from t(2) obtain c' mesh' where e: "cleanupFn t = Some c'" "meshes t (c_material c' + 1) = Some mesh'"
    "runFrame J t =
       t\<lparr> frameHandle := frameHandle t + 1,
          frameCallbacks := [(frameHandle t + 1, c')],
          animRef := Some (frameHandle t + 1),
          meshes := (if autoRotate t
                     then (meshes t)(c_material c' + 1 \<mapsto> mesh'\<lparr> rotation := advance (rotation mesh') \<rparr>)
                     else meshes t),
          localStorage := (if autoRotate t
                     then setItem (localStorage t) ''meshRotation''
                            (stringify J (rotationObject (advance (rotation mesh'))))
                     else localStorage t),
          trace := trace t @ [RequestFrame (frameHandle t + 1),
                              Render (c_renderer c') (c_scene c') (c_camera c')] \<rparr>"
    by (rule frame_eq)
  from e(1) t(3) have cc: "c' = c" by simp
  from e(2) t(6) cc have mm: "mesh' = mesh\<lparr> rotation := (advance ^^ N) (rotation mesh) \<rparr>" by simp
  have l: "live (runFrame J t)" using t(2) by (rule live_frame)
  have rs: "replicate (Suc N) Frame = replicate N Frame @ [Frame]"
    by (simp add: replicate_append_same)
  have r: "run J (replicate (Suc N) Frame) s = Inr (runFrame J t)"
    unfolding rs by (simp add: run_append t(1))
  show ?case
    unfolding r using l t(3-5,7)
    by (simp add: e(3) cc mm replicate_append_same getItem_def setItem_def)
qed

lemma restoreRotation_cong:
  "getItem ls' ''meshRotation'' = getItem ls ''meshRotation'' \<Longrightarrow>
   restoreRotation J ls' r0 = restoreRotation J ls r0"
  by (simp add: restoreRotation_def)

lemma restoreRotation_roundtrip:
  assumes "roundtrips J (rotationObject r)"
    "getItem ls ''meshRotation'' = Some (stringify J (rotationObject r))"
  shows "restoreRotation J ls r0 = r"
  using assms by (simp add: restoreRotation_def tryRestore_def roundtrips_def rotationObject_def)

lemmas demo_defs = demoJSON_def jsonTable_def rotationText_def advancedText_def overflowText_def
  tick1Text_def tick2Text_def tick3Text_def overflowTick1Text_def overflowTick2Text_def

lemma getProp_truthy: "truthy v \<Longrightarrow> \<exists>w. getProp v k = Returns w"
  by (cases v) simp_all

lemma tryRestore_Throws: "tryRestore J rotStr rotation0 = Throws \<longleftrightarrow> parse J rotStr = Throws"
proof (cases "parse J rotStr")
  case Throws
  then show ?thesis by (simp add: tryRestore_def)
next
  case (Returns rot)
  show ?thesis
  proof (cases "truthy rot")
    case False
    with Returns show ?thesis by (simp add: tryRestore_def)
  next
    case True
    from getProp_truthy [OF True] obtain vx vy vz where
      "getProp rot ''x'' = Returns vx" "getProp rot ''y'' = Returns vy"
      "getProp rot ''z'' = Returns vz" by metis
    with True Returns show ?thesis by (simp add: tryRestore_def)
  qed
qed

lemma restore_applies_numbers:
  assumes "getItem ls ''meshRotation'' = Some rotStr" "rotStr \<noteq> []"
    and "parse J rotStr = Returns rot" "truthy rot"
    and "getProp rot ''x'' = Returns (JNumber a)" "getProp rot ''y'' = Returns (JNumber b)"
      "getProp rot ''z'' = Returns (JNumber c)"
  shows "restoreRotation J ls rotation0 = Euler a b c"
  using assms by (simp add: restoreRotation_def tryRestore_def)

lemma mount_state:
  obtains g where "map_of GEOMETRIES (geometryKey_init ls) = Some g"
    "mount J ls vp dpr =
       Inr ((started J g (premount ls vp dpr))\<lparr> materials :=
          [4 \<mapsto> \<lparr> mat_color = color g, mat_wireframe = wireframe_init ls,
                  mat_needsUpdate = True \<rparr>] \<rparr>)"
proof -
  obtain g where g: "map_of GEOMETRIES (geometryKey_init ls) = Some g"
    "mount J ls vp dpr = Inr (applyWireframe (started J g (premount ls vp dpr)))"
    by (rule mount_eq)
  define t where "t = started J g (premount ls vp dpr)"
  have f: "currentMeshRef t = Some 5"
    "meshes t 5 = Some \<lparr> geometry = 3, material = 4,
        rotation = (if autoRotate_init ls
                    then advance (restoreRotation J (localStorage (premount ls vp dpr)) (Euler (Num 0) (Num 0) (Num 0)))
                    else restoreRotation J (localStorage (premount ls vp dpr)) (Euler (Num 0) (Num 0) (Num 0))) \<rparr>"
    "materials t = [4 \<mapsto> \<lparr> mat_color = color g, mat_wireframe = wireframe_init ls,
                  mat_needsUpdate = False \<rparr>]"
    "wireframe t = wireframe_init ls"
    by (simp_all add: t_def started_def premount_def initial_def Let_def)
  have "applyWireframe t = t\<lparr> materials := (materials t)(material \<lparr> geometry = 3, material = 4,
        rotation = (if autoRotate_init ls
                    then advance (restoreRotation J (localStorage (premount ls vp dpr)) (Euler (Num 0) (Num 0) (Num 0)))
                    else restoreRotation J (localStorage (premount ls vp dpr)) (Euler (Num 0) (Num 0) (Num 0))) \<rparr> \<mapsto>
           \<lparr> mat_color = color g, mat_wireframe = wireframe_init ls,
                  mat_needsUpdate = False \<rparr>\<lparr> mat_wireframe := wireframe t, mat_needsUpdate := True \<rparr>) \<rparr>"
    by (rule applyWireframe_eq [OF f(1) f(2)]) (simp add: f(3))
  then have "applyWireframe t = t\<lparr> materials :=
          [4 \<mapsto> \<lparr> mat_color = color g, mat_wireframe = wireframe_init ls,
                  mat_needsUpdate = True \<rparr>] \<rparr>"
    by (simp add: f(3,4))
  with g that show thesis by (simp add: t_def)
qed

lemma premount_rotation:
  "restoreRotation J (localStorage (premount ls vp dpr)) r0 = restoreRotation J ls r0"
  by (rule restoreRotation_cong) (simp add: premount_def initial_def getItem_def)

lemma mount_fields:
  assumes "mount J ls vp dpr = Inr s"
  shows "geometryKey s = geometryKey_init ls" "wireframe s = wireframe_init ls"
    "autoRotate s = autoRotate_init ls"
    "cameraRef s = Some 1"
    "\<exists>cam. cameras s 1 = Some cam \<and> aspect cam = js_div (fst vp) (snd vp)"
    "currentMeshRef s = Some 5"
    "\<exists>mesh. meshes s 5 = Some mesh \<and> material mesh = 4 \<and>
       rotation mesh = (if autoRotate_init ls
                        then advance (restoreRotation J ls (Euler (Num 0) (Num 0) (Num 0)))
                        else restoreRotation J ls (Euler (Num 0) (Num 0) (Num 0)))"
    "\<exists>mat. materials s 4 = Some mat \<and> mat_wireframe mat = wireframe_init ls"
    "trace s = [Create (Renderer 2), Create (Geometry 3), Create (Material 4),
                RequestFrame 1, Render 2 0 1]"
    "getItem (localStorage s) ''meshRotation'' =
       (if autoRotate_init ls
        then Some (stringify J (rotationObject
               (advance (restoreRotation J ls (Euler (Num 0) (Num 0) (Num 0))))))
        else getItem ls ''meshRotation'')"
proof -
  obtain g where g: "mount J ls vp dpr =
       Inr ((started J g (premount ls vp dpr))\<lparr> materials :=
          [4 \<mapsto> \<lparr> mat_color = color g, mat_wireframe = wireframe_init ls,
                  mat_needsUpdate = True \<rparr>] \<rparr>)"
    by (rule mount_state)
  from assms g have s: "s = (started J g (premount ls vp dpr))\<lparr> materials :=
          [4 \<mapsto> \<lparr> mat_color = color g, mat_wireframe = wireframe_init ls,
                  mat_needsUpdate = True \<rparr>] \<rparr>" by simp
  have p: "nextId (premount ls vp dpr) = 0" "rendererRef (premount ls vp dpr) = None"
    "trace (premount ls vp dpr) = []" "frameHandle (premount ls vp dpr) = 0"
    "viewport (premount ls vp dpr) = vp" "autoRotateRef (premount ls vp dpr) = autoRotate_init ls"
    "geometryKey (premount ls vp dpr) = geometryKey_init ls"
    "wireframe (premount ls vp dpr) = wireframe_init ls"
    "autoRotate (premount ls vp dpr) = autoRotate_init ls"
    "cameras (premount ls vp dpr) = Map.empty" "meshes (premount ls vp dpr) = Map.empty"
    "localStorage (premount ls vp dpr) ''meshRotation'' = ls ''meshRotation''"
    by (simp_all add: premount_def initial_def)
  show "geometryKey s = geometryKey_init ls" "wireframe s = wireframe_init ls"
    "autoRotate s = autoRotate_init ls"
    "cameraRef s = Some 1"
    "\<exists>cam. cameras s 1 = Some cam \<and> aspect cam = js_div (fst vp) (snd vp)"
    "currentMeshRef s = Some 5"
    "\<exists>mesh. meshes s 5 = Some mesh \<and> material mesh = 4 \<and>
       rotation mesh = (if autoRotate_init ls
                        then advance (restoreRotation J ls (Euler (Num 0) (Num 0) (Num 0)))
                        else restoreRotation J ls (Euler (Num 0) (Num 0) (Num 0)))"
    "\<exists>mat. materials s 4 = Some mat \<and> mat_wireframe mat = wireframe_init ls"
    "trace s = [Create (Renderer 2), Create (Geometry 3), Create (Material 4),
                RequestFrame 1, Render 2 0 1]"
    "getItem (localStorage s) ''meshRotation'' =
       (if autoRotate_init ls
        then Some (stringify J (rotationObject
               (advance (restoreRotation J ls (Euler (Num 0) (Num 0) (Num 0))))))
        else getItem ls ''meshRotation'')"
    by (simp_all add: s started_def Let_def p premount_rotation getItem_def setItem_def)
qed

lemma session_live:
  assumes "session J ls vp dpr evs = Inr s"
  shows "live s" and "accounted s"
proof -
  from assms obtain s0 where "mount J ls vp dpr = Inr s0" "run J evs s0 = Inr s"
    by (auto simp: session_def split: sum.splits)
  then have "live s \<and> accounted s" by (rule reachable_live)
  then show "live s" and "accounted s" by simp_all
qed

lemma run_total:
  assumes "live s" "accounted s" "list_all valid_event evs"
  shows "\<exists>s'. run J evs s = Inr s'"
  using assms
proof (induction evs arbitrary: s)
  case Nil
  show ?case by simp
next
  case (Cons e evs)
  from Cons.prems have "\<exists>s1. step J e s = Inr s1"
    by (intro step_total) (simp_all add: valid_event_def)
  then obtain s1 where s1: "step J e s = Inr s1" by blast
  from step_preserves [OF Cons.prems(1,2) s1] Cons.prems(3) Cons.IH [of s1]
  obtain s' where "run J evs s1 = Inr s'" by auto
  with s1 show ?case by simp
qed

lemma session_total:
  assumes "list_all valid_event evs"
  shows "\<exists>s. session J ls vp dpr evs = Inr s"
proof -
  obtain s0 where s0: "mount J ls vp dpr = Inr s0" using mount_total by blast
  from live_mount [OF s0] run_total [OF _ _ assms, of s0 J] s0 show ?thesis
    by (auto simp: session_def)
qed

lemma session_Nil: "session J ls vp dpr [] = mount J ls vp dpr"
  by (simp add: session_def split: sum.splits)

lemmas model_defs = session_def mount_def initial_def initScene_def createScene_def createMesh_def animate_def
  requestAnimationFrame_def cancelAnimationFrame_def rotateAndSave_def addToScene_def modify_def
  cleanup_def applyWireframe_def syncWireframe_def syncAutoRotate_def saveGeometryKey_def
  handleResize_def runFrame_def unmount_def restoreRotation_def tryRestore_def getItem_def setItem_def
  geometryKey_init_def wireframe_init_def autoRotate_init_def Object_keys_def GEOMETRIES_def
  String_of_bool_def advance_def rotationObject_def js_or_def

lemma unmount_eq:
  assumes "live s"
  obtains c where "cleanupFn s = Some c" "frameCallbacks s = [(frameHandle s, c)]"
    "unmount s =
       s\<lparr> mountRef := False, cleanupFn := None, resizeListeners := [], frameCallbacks := [],
          trace := trace s @ [CancelFrame (frameHandle s), Dispose (Renderer (c_renderer c)),
                              Dispose (Geometry (c_geometry c)), Dispose (Material (c_material c)),
                              ClearScene (c_scene c)],
          scenes := modify (scenes s) (c_scene c) (\<lambda>sc. sc\<lparr> children := [] \<rparr>) \<rparr>"
proof -
  from assms obtain c where f: "cleanupFn s = Some c" "resizeListeners s = [c]"
    "frameCallbacks s = [(frameHandle s, c)]" "animRef s = Some (frameHandle s)"
    "frameHandle s \<noteq> 0"
    by (auto elim: live_fields)
  have a: "animRef (s\<lparr> mountRef := False \<rparr>) = Some (frameHandle s)" using f by simp
  have "unmount s = (cleanup c (s\<lparr> mountRef := False \<rparr>))\<lparr> cleanupFn := None \<rparr>"
    using f(1) by (simp add: unmount_def)
  then have "unmount s =
       s\<lparr> mountRef := False, cleanupFn := None, resizeListeners := [], frameCallbacks := [],
          trace := trace s @ [CancelFrame (frameHandle s), Dispose (Renderer (c_renderer c)),
                              Dispose (Geometry (c_geometry c)), Dispose (Material (c_material c)),
                              ClearScene (c_scene c)],
          scenes := modify (scenes s) (c_scene c) (\<lambda>sc. sc\<lparr> children := [] \<rparr>) \<rparr>"
    using f(2,3) by (simp add: cleanup_eq [OF a f(5)])
  with f that show thesis by blast
qed

lemma select_cleanup_eq:
  assumes "live s" "cleanupFn s = Some c"
  shows "cleanup c (s\<lparr> geometryKey := k \<rparr>) =
       s\<lparr> geometryKey := k, resizeListeners := [], frameCallbacks := [],
          trace := trace s @ [CancelFrame (frameHandle s), Dispose (Renderer (c_renderer c)),
                              Dispose (Geometry (c_geometry c)), Dispose (Material (c_material c)),
                              ClearScene (c_scene c)],
          scenes := modify (scenes s) (c_scene c) (\<lambda>sc. sc\<lparr> children := [] \<rparr>) \<rparr>"
proof -
  from assms obtain f: "resizeListeners s = [c]"
    "frameCallbacks s = [(frameHandle s, c)]" "animRef s = Some (frameHandle s)"
    "frameHandle s \<noteq> 0"
    by (auto elim: live_fields)
  have a: "animRef (s\<lparr> geometryKey := k \<rparr>) = Some (frameHandle s)" using f by simp
  show ?thesis using f(1,2) by (simp add: cleanup_eq [OF a f(4)])
qed

lemma select_started:
  assumes "live s" "cleanupFn s = Some c" "k \<in> set (Object_keys GEOMETRIES)" "k \<noteq> geometryKey s"
  obtains g p where "map_of GEOMETRIES k = Some g"
    "p = s\<lparr> geometryKey := k, resizeListeners := [], frameCallbacks := [],
          trace := trace s @ [CancelFrame (frameHandle s), Dispose (Renderer (c_renderer c)),
                              Dispose (Geometry (c_geometry c)), Dispose (Material (c_material c)),
                              ClearScene (c_scene c)],
          scenes := modify (scenes s) (c_scene c) (\<lambda>sc. sc\<lparr> children := [] \<rparr>),
          localStorage := setItem (localStorage s) ''geometryKey'' k \<rparr>"
    "step J (SelectShape k) s = Inr (started J g p)"
proof -
  from lookup_valid [OF assms(3)] obtain g where g: "map_of GEOMETRIES k = Some g" by blast
  from assms(1) have mr: "mountRef s" by (auto elim: live_fields)
  define p where "p = saveGeometryKey (cleanup c (s\<lparr> geometryKey := k \<rparr>))"
  have p: "p = s\<lparr> geometryKey := k, resizeListeners := [], frameCallbacks := [],
          trace := trace s @ [CancelFrame (frameHandle s), Dispose (Renderer (c_renderer c)),
                              Dispose (Geometry (c_geometry c)), Dispose (Material (c_material c)),
                              ClearScene (c_scene c)],
          scenes := modify (scenes s) (c_scene c) (\<lambda>sc. sc\<lparr> children := [] \<rparr>),
          localStorage := setItem (localStorage s) ''geometryKey'' k \<rparr>"
    by (simp add: p_def saveGeometryKey_def select_cleanup_eq [OF assms(1,2)])
  have "initScene J p = Inr (started J g p)"
    using mr g by (intro initScene_eq) (simp_all add: p)
  then have "step J (SelectShape k) s = Inr (started J g p)"
    using assms(2,4) by (simp add: p_def)
  with g p that show thesis by blast
qed

lemma settled_unmount:
  assumes "live s" "accounted s"
  shows "settled (unmount s)" and "lastRenderer (unmount s) = lastRenderer s"
proof -
  from assms(1) obtain c where u: "cleanupFn s = Some c"
    "unmount s =
       s\<lparr> mountRef := False, cleanupFn := None, resizeListeners := [], frameCallbacks := [],
          trace := trace s @ [CancelFrame (frameHandle s), Dispose (Renderer (c_renderer c)),
                              Dispose (Geometry (c_geometry c)), Dispose (Material (c_material c)),
                              ClearScene (c_scene c)],
          scenes := modify (scenes s) (c_scene c) (\<lambda>sc. sc\<lparr> children := [] \<rparr>) \<rparr>"
    by (rule unmount_eq)
  from assms(1) u(1) have r: "rendererRef s = Some (c_renderer c)"
    by (auto elim: live_fields)
  show "settled (unmount s)"
    using assms(2) u(1) r
    by (auto simp: u(2) settled_def accounted_def owned_def lastRenderer_def)
  show "lastRenderer (unmount s) = lastRenderer s"
    by (simp add: u(2) lastRenderer_def)
qed

lemma handleResize_aspect_number:
  assumes "mountRef s" "cameras s (c_camera c) = Some cam" "viewport s = (Num w, Num h)"
  shows "\<exists>cam'. cameras (handleResize c s) (c_camera c) = Some cam' \<and> aspect cam' \<noteq> NaN"
  using assms by (simp add: handleResize_def Let_def modify_def js_or_def to_double_number)

lemma handleResize_aspect_finite:
  assumes "mountRef s" "cameras s (c_camera c) = Some cam" "viewport s = (Num w, Num h)"
    and "\<bar>(if w = 0 then 800 else w) / (if h = 0 then 600 else h)\<bar> \<le> 2 ^ 1023"
  shows "\<exists>cam'. cameras (handleResize c s) (c_camera c) = Some cam' \<and> isFinite (aspect cam')"
proof -
  from assms(4) have "\<bar>fl ((if w = 0 then 800 else w) / (if h = 0 then 600 else h))\<bar> < 2 ^ 1024"
    by (rule fl_finite)
  then have "isFinite (to_double ((if w = 0 then 800 else w) / (if h = 0 then 600 else h)))"
    by (simp add: to_double_finite)
  with assms(1-3) show ?thesis
    by (auto simp: handleResize_def Let_def modify_def js_or_def split: if_splits)
qed

section \<open>The claims\<close>

text \<open>
  Claim C1 does not hold for the renderer. Mount, select another shape, unmount: the
  renderer of the first construction is disposed by the cleanup and disposed again by
  the next run of the effect, which finds it in \<open>rendererRef\<close>.
\<close>

theorem renderer_disposed_twice:
  "\<exists>s. session demoJSON [''autoRotate'' \<mapsto> ''false''] (Num 800, Num 600) (Num 1)
          [SelectShape ''sphere''] = Inr s
     \<and> trace (unmount s) =
         [Create (Renderer 2), Create (Geometry 3), Create (Material 4),
          RequestFrame 1, Render 2 0 1,
          CancelFrame 1, Dispose (Renderer 2), Dispose (Geometry 3), Dispose (Material 4),
          ClearScene 0,
          Dispose (Renderer 2), Create (Renderer 8), Create (Geometry 9), Create (Material 10),
          RequestFrame 2, Render 8 6 7,
          CancelFrame 2, Dispose (Renderer 8), Dispose (Geometry 9), Dispose (Material 10),
          ClearScene 6]
     \<and> count_list (disposed (trace (unmount s))) (Renderer 2) = 2"
  by (simp add: model_defs Let_def)

text \<open>
  Claim C1, amended. Over a whole life of the component (mount, any events, unmount)
  every resource is created once and nothing is disposed that was not created. Every
  geometry and every material is disposed exactly once. Every renderer is disposed by
  the cleanup of its construction, and once more when another construction follows:
  twice in all, except the renderer of the last construction, which is disposed once.
\<close>

theorem disposals_after_unmount:
  assumes "session J ls vp dpr evs = Inr s"
  shows "distinct (created (trace (unmount s)))
     \<and> set (disposed (trace (unmount s))) \<subseteq> set (created (trace (unmount s)))
     \<and> (\<forall>r \<in> set (created (trace (unmount s))).
           count_list (disposed (trace (unmount s))) r =
             (case r of
                Renderer x \<Rightarrow> if rendererRef s = Some x then 1 else 2
              | Geometry g \<Rightarrow> 1
              | Material m \<Rightarrow> 1))"
proof -
  have l: "live s" "accounted s" using assms by (rule session_live)+
  have st: "settled (unmount s)" and lr: "lastRenderer (unmount s) = lastRenderer s"
    using settled_unmount [OF l] by simp_all
  have cnt: "count_list (disposed (trace (unmount s))) r =
             (if r \<in> set (created (trace (unmount s)))
              then (if r \<in> set (lastRenderer s) then 1 else due r) else 0)" for r
    using st by (simp add: settled_def lr)
  have 1: "distinct (created (trace (unmount s)))" using st by (simp add: settled_def)
  have 2: "set (disposed (trace (unmount s))) \<subseteq> set (created (trace (unmount s)))"
  proof
    fix r assume "r \<in> set (disposed (trace (unmount s)))"
    then have "count_list (disposed (trace (unmount s))) r \<noteq> 0"
      by (simp add: count_list_0_iff)
    with cnt [of r] show "r \<in> set (created (trace (unmount s)))"
      by (auto split: if_splits)
  qed
  have 3: "count_list (disposed (trace (unmount s))) r =
             (case r of
                Renderer x \<Rightarrow> if rendererRef s = Some x then 1 else 2
              | Geometry g \<Rightarrow> 1
              | Material m \<Rightarrow> 1)" if "r \<in> set (created (trace (unmount s)))" for r
    using cnt [of r] that
    by (cases r) (auto simp: lastRenderer_def split: option.splits)
  from 1 2 3 show ?thesis by blast
qed

text \<open>The amended claim C1 for a mount, two changes of shape and an unmount.\<close>

theorem disposals_after_unmount_witness:
  "\<exists>s. session demoJSON [''autoRotate'' \<mapsto> ''false''] (Num 800, Num 600) (Num 1)
          [SelectShape ''sphere'', Frame, SelectShape ''torus''] = Inr s
     \<and> created (trace (unmount s)) =
         [Renderer 2, Geometry 3, Material 4, Renderer 8, Geometry 9, Material 10,
          Renderer 14, Geometry 15, Material 16]
     \<and> rendererRef s = Some 14
     \<and> count_list (disposed (trace (unmount s))) (Renderer 2) = 2
     \<and> count_list (disposed (trace (unmount s))) (Geometry 9) = 1
     \<and> count_list (disposed (trace (unmount s))) (Material 16) = 1
     \<and> count_list (disposed (trace (unmount s))) (Renderer 14) = 1"
proof -
  have "list_all valid_event [SelectShape ''sphere'', Frame, SelectShape ''torus'']"
    by (simp add: valid_event_def keys)
  then obtain s where s: "session demoJSON [''autoRotate'' \<mapsto> ''false''] (Num 800, Num 600) (Num 1)
          [SelectShape ''sphere'', Frame, SelectShape ''torus''] = Inr s"
    using session_total by blast
  have c: "session demoJSON [''autoRotate'' \<mapsto> ''false''] (Num 800, Num 600) (Num 1)
          [SelectShape ''sphere'', Frame, SelectShape ''torus''] = Inr s \<Longrightarrow>
      created (trace (unmount s)) =
         [Renderer 2, Geometry 3, Material 4, Renderer 8, Geometry 9, Material 10,
          Renderer 14, Geometry 15, Material 16] \<and> rendererRef s = Some 14"
    by (auto simp: model_defs Let_def)
  from disposals_after_unmount [OF s] c [OF s] s show ?thesis
    by auto
qed

text \<open>
  Claim C2, at the inputs where the code departs from it. The scene construction
  divides the width the viewport reports by its height as they are: for a viewport
  of size 0 by 0 the camera's aspect ratio is NaN, and for 800 by 0 it is Infinity.
  Only \<open>handleResize\<close> substitutes 800 and 600.
\<close>

theorem construct_zero_viewport_aspect:
  "(\<exists>s cam. mount J ls (Num 0, Num 0) dpr = Inr s \<and> cameraRef s = Some 1
       \<and> cameras s 1 = Some cam \<and> aspect cam = NaN \<and> \<not> isFinite (aspect cam))
   \<and> (\<exists>s cam. mount J ls (Num 800, Num 0) dpr = Inr s \<and> cameraRef s = Some 1
       \<and> cameras s 1 = Some cam \<and> aspect cam = PosInf \<and> \<not> isFinite (aspect cam))"
proof
  obtain s where s: "mount J ls (Num 0, Num 0) dpr = Inr s" using mount_total by blast
  from mount_fields(4,5) [OF s] s
  show "\<exists>s cam. mount J ls (Num 0, Num 0) dpr = Inr s \<and> cameraRef s = Some 1
       \<and> cameras s 1 = Some cam \<and> aspect cam = NaN \<and> \<not> isFinite (aspect cam)"
    by auto
next
  obtain s where s: "mount J ls (Num 800, Num 0) dpr = Inr s" using mount_total by blast
  from mount_fields(4,5) [OF s] s
  show "\<exists>s cam. mount J ls (Num 800, Num 0) dpr = Inr s \<and> cameraRef s = Some 1
       \<and> cameras s 1 = Some cam \<and> aspect cam = PosInf \<and> \<not> isFinite (aspect cam)"
    by auto
qed

text \<open>
  Claim C3 does not hold for a component that is a number but not finite: the text
  \<open>{"x":1e999,"y":0,"z":0}\<close> parses to an object whose \<open>x\<close> is Infinity, its three
  components have type number, and the restore step applies it.
\<close>

theorem restore_applies_nonfinite:
  "restoreRotation demoJSON [''meshRotation'' \<mapsto> overflowText] (Euler (Num 0) (Num 0) (Num 0))
     = Euler PosInf (Num 0) (Num 0)
   \<and> \<not> isFinite (euler_x (restoreRotation demoJSON [''meshRotation'' \<mapsto> overflowText]
                             (Euler (Num 0) (Num 0) (Num 0))))"
  by (simp add: restoreRotation_def tryRestore_def getItem_def demo_defs rotationObject_def)

text \<open>
  Claim C3, amended. When the stored text does not parse, or one of \<open>x\<close>, \<open>y\<close>,
  \<open>z\<close> of the parsed value does not have type number (missing, null, a string, ...),
  the restore step leaves the rotation as it was: the default orientation of the new
  mesh. Nothing is thrown past the step: inside the \<open>try\<close> only the parser throws,
  and the \<open>catch\<close> turns that into the same default.
\<close>

theorem restore_rejects_malformed:
  assumes "getItem ls ''meshRotation'' = Some rotStr"
    and "parse J rotStr = Throws
         \<or> (\<exists>rot. parse J rotStr = Returns rot
               \<and> \<not> (hasNumber rot ''x'' \<and> hasNumber rot ''y'' \<and> hasNumber rot ''z''))"
  shows "restoreRotation J ls rotation0 = rotation0
     \<and> (tryRestore J rotStr rotation0 = Throws \<longleftrightarrow> parse J rotStr = Throws)"
proof -
  have "tryRestore J rotStr rotation0 = Throws \<or> tryRestore J rotStr rotation0 = Returns rotation0"
  proof (cases "parse J rotStr")
    case Throws
    then show ?thesis by (simp add: tryRestore_def)
  next
    case (Returns rot)
    with assms(2) have n: "\<not> (hasNumber rot ''x'' \<and> hasNumber rot ''y'' \<and> hasNumber rot ''z'')"
      by simp
    show ?thesis
    proof (cases "truthy rot")
      case False
      with Returns show ?thesis by (simp add: tryRestore_def)
    next
      case True
      from getProp_truthy [OF True] obtain vx vy vz where
        v: "getProp rot ''x'' = Returns vx" "getProp rot ''y'' = Returns vy"
          "getProp rot ''z'' = Returns vz" by metis
      from n v have "typeof vx \<noteq> ''number'' \<or> typeof vy \<noteq> ''number'' \<or> typeof vz \<noteq> ''number''"
        by (simp add: hasNumber_def)
      with True Returns v show ?thesis by (auto simp: tryRestore_def)
    qed
  qed
  then have "restoreRotation J ls rotation0 = rotation0"
    using assms(1) by (auto simp: restoreRotation_def)
  then show ?thesis using tryRestore_Throws by blast
qed

text \<open>The amended claim C3 at a text that is not JSON.\<close>

theorem restore_rejects_malformed_witness:
  "restoreRotation demoJSON [''meshRotation'' \<mapsto> ''not json''] (Euler (Num 0) (Num 0) (Num 0))
     = Euler (Num 0) (Num 0) (Num 0)"
proof -
  have a: "getItem [''meshRotation'' \<mapsto> ''not json''] ''meshRotation'' = Some ''not json''"
    by (simp add: getItem_def)
  have b: "parse demoJSON ''not json'' = Throws"
    by (simp add: demo_defs)
  show ?thesis
    using restore_rejects_malformed [OF a disjI1 [OF b]] by simp
qed

text \<open>
  Claim C4. Whatever string the store holds under \<open>geometryKey\<close>, the selected key
  is a key of the catalogue: the stored string when it is one of the eight
  identifiers, and \<open>box\<close> otherwise (unknown, empty or absent). Mounting then
  succeeds with that key: no exception is thrown.
\<close>

theorem selected_shape_is_catalogue_key:
  "geometryKey_init ls \<in> set (Object_keys GEOMETRIES)
   \<and> geometryKey_init ls =
       (case ls ''geometryKey'' of
          None \<Rightarrow> ''box''
        | Some stored \<Rightarrow>
            if stored \<in> {''box'', ''sphere'', ''plane'', ''cone'', ''cylinder'', ''torus'',
                          ''torusKnot'', ''ring''}
            then stored else ''box'')
   \<and> (\<exists>s. mount J ls vp dpr = Inr s \<and> geometryKey s = geometryKey_init ls)"
proof (intro conjI)
  show "geometryKey_init ls \<in> set (Object_keys GEOMETRIES)"
    by (rule geometryKey_init_valid)
  show "geometryKey_init ls =
       (case ls ''geometryKey'' of
          None \<Rightarrow> ''box''
        | Some stored \<Rightarrow>
            if stored \<in> {''box'', ''sphere'', ''plane'', ''cone'', ''cylinder'', ''torus'',
                          ''torusKnot'', ''ring''}
            then stored else ''box'')"
    by (auto simp: geometryKey_init_def getItem_def keys split: option.split)
  show "\<exists>s. mount J ls vp dpr = Inr s \<and> geometryKey s = geometryKey_init ls"
    using mount_total [of J ls vp dpr] mount_fields(1) by blast
qed

text \<open>
  Claim C5 does not hold for \<open>N = 0\<close>. A viewer is mounted with auto-rotate stored as
  off and auto-rotate is then switched on. Auto-rotate is enabled, no display refresh
  has run yet, the mesh is at \<open>(0, 0, 0)\<close>, and the store holds no rotation at all,
  so what is persisted is not the rotation of the mesh: the refreshes are what
  persists the rotation, and none has run.
\<close>

theorem nothing_persisted_before_first_frame:
  "\<exists>s mesh. session demoJSON [''autoRotate'' \<mapsto> ''false''] (Num 800, Num 600) (Num 1)
               [ToggleAutoRotate] = Inr s
     \<and> autoRotate s
     \<and> run demoJSON (replicate 0 Frame) s = Inr s
     \<and> currentMeshRef s = Some 5 \<and> meshes s 5 = Some mesh
     \<and> rotation mesh = Euler (Num 0) (Num 0) (Num 0)
     \<and> getItem (localStorage s) ''meshRotation'' = None
     \<and> getItem (localStorage s) ''meshRotation'' \<noteq>
         Some (stringify demoJSON (rotationObject (rotation mesh)))"
  by (simp add: model_defs Let_def)

text \<open>
  Claim C5, amended. With auto-rotate enabled, after \<open>N \<ge> 1\<close> display refreshes the
  rotation of the active mesh is its rotation before them after \<open>N\<close> runs of the
  increment \<open>x += 0.01; y += 0.015\<close> in double arithmetic, and the text in the store is
  the serialisation of that rotation: what each refresh persists is the rotation of
  the mesh after it. As real numbers, with no reduction modulo \<open>2\<pi>\<close> and so also
  modulo \<open>2\<pi>\<close>, a finite component \<open>a\<close> has become a finite double within
  \<open>tolerance N a d\<close> of \<open>a + N d\<close>, where \<open>d\<close> is \<open>0.01\<close> for \<open>x\<close> and \<open>0.015\<close> for
  \<open>y\<close>; the tolerance is the rounding error \<open>N\<close> additions can accumulate,
  \<open>(\<bar>a\<bar> + N d + 1) ((1 + 1 / 2 ^ 53) ^ N - 1)\<close>. A component that is not finite stays
  as it is, and \<open>z\<close> is unchanged.
\<close>

theorem frames_with_autorotate:
  assumes "session J ls vp dpr evs = Inr s" and "autoRotate s"
    and "currentMeshRef s = Some m" and "meshes s m = Some mesh" and "0 < N"
  shows "\<exists>s' mesh'. run J (replicate N Frame) s = Inr s'
     \<and> autoRotate s' \<and> currentMeshRef s' = Some m \<and> meshes s' m = Some mesh'
     \<and> rotation mesh' = (advance ^^ N) (rotation mesh)
     \<and> getItem (localStorage s') ''meshRotation'' =
         Some (stringify J (rotationObject (rotation mesh')))
     \<and> (\<forall>a. euler_x (rotation mesh) = Num a \<and> is_double a \<longrightarrow>
           (\<exists>x. euler_x (rotation mesh') = Num x \<and> is_double x
              \<and> \<bar>x - (a + real N * 0.01)\<bar> \<le> tolerance N a 0.01))
     \<and> (\<forall>b. euler_y (rotation mesh) = Num b \<and> is_double b \<longrightarrow>
           (\<exists>y. euler_y (rotation mesh') = Num y \<and> is_double y
              \<and> \<bar>y - (b + real N * 0.015)\<bar> \<le> tolerance N b 0.015))
     \<and> (\<not> isFinite (euler_x (rotation mesh)) \<longrightarrow>
           euler_x (rotation mesh') = euler_x (rotation mesh))
     \<and> (\<not> isFinite (euler_y (rotation mesh)) \<longrightarrow>
           euler_y (rotation mesh') = euler_y (rotation mesh))
     \<and> euler_z (rotation mesh') = euler_z (rotation mesh)"
proof -
  have l: "live s" using assms(1) by (rule session_live)
  then obtain c where c: "cleanupFn s = Some c" "currentMeshRef s = Some (c_material c + 1)"
    by (auto elim: live_fields)
  from c(2) assms(3) have m: "m = c_material c + 1" by simp
  from assms(4) m have mm: "meshes s (c_material c + 1) = Some mesh" by simp
  define r' where "r' = (advance ^^ N) (rotation mesh)"
  from frames_on [OF l assms(2) c(1) mm, of J N] assms(5)
  obtain s' where s': "run J (replicate N Frame) s = Inr s'" "autoRotate s'"
    "currentMeshRef s' = currentMeshRef s"
    "meshes s' (c_material c + 1) = Some (mesh\<lparr> rotation := r' \<rparr>)"
    "getItem (localStorage s') ''meshRotation'' = Some (stringify J (rotationObject r'))"
    by (auto simp: r'_def)
  have r': "euler_x r' = ((\<lambda>v. js_add v (to_double 0.01)) ^^ N) (euler_x (rotation mesh))"
    "euler_y r' = ((\<lambda>v. js_add v (to_double 0.015)) ^^ N) (euler_y (rotation mesh))"
    "euler_z r' = euler_z (rotation mesh)"
    by (simp_all add: r'_def advance_funpow)
  have x: "\<exists>x. euler_x r' = Num x \<and> is_double x \<and> \<bar>x - (a + real N * 0.01)\<bar> \<le> tolerance N a 0.01"
    if "euler_x (rotation mesh) = Num a \<and> is_double a" for a
    using add_drift [of a "0.01" N] that by (simp add: r'(1))
  have y: "\<exists>y. euler_y r' = Num y \<and> is_double y \<and> \<bar>y - (b + real N * 0.015)\<bar> \<le> tolerance N b 0.015"
    if "euler_y (rotation mesh) = Num b \<and> is_double b" for b
    using add_drift [of b "0.015" N] that by (simp add: r'(2))
  have nx: "euler_x r' = euler_x (rotation mesh)" if "\<not> isFinite (euler_x (rotation mesh))"
    using iterate_nonfinite [OF that, of "0.01" N] by (simp add: r'(1))
  have ny: "euler_y r' = euler_y (rotation mesh)" if "\<not> isFinite (euler_y (rotation mesh))"
    using iterate_nonfinite [OF that, of "0.015" N] by (simp add: r'(2))
  have "run J (replicate N Frame) s = Inr s'
     \<and> autoRotate s' \<and> currentMeshRef s' = Some m \<and> meshes s' m = Some (mesh\<lparr> rotation := r' \<rparr>)
     \<and> rotation (mesh\<lparr> rotation := r' \<rparr>) = (advance ^^ N) (rotation mesh)
     \<and> getItem (localStorage s') ''meshRotation'' =
         Some (stringify J (rotationObject (rotation (mesh\<lparr> rotation := r' \<rparr>))))"
    using s' assms(3) m by (simp add: r'_def)
  moreover have "(\<forall>a. euler_x (rotation mesh) = Num a \<and> is_double a \<longrightarrow>
           (\<exists>x. euler_x (rotation (mesh\<lparr> rotation := r' \<rparr>)) = Num x \<and> is_double x
              \<and> \<bar>x - (a + real N * 0.01)\<bar> \<le> tolerance N a 0.01))
     \<and> (\<forall>b. euler_y (rotation mesh) = Num b \<and> is_double b \<longrightarrow>
           (\<exists>y. euler_y (rotation (mesh\<lparr> rotation := r' \<rparr>)) = Num y \<and> is_double y
              \<and> \<bar>y - (b + real N * 0.015)\<bar> \<le> tolerance N b 0.015))"
    using x y by simp
  moreover have "(\<not> isFinite (euler_x (rotation mesh)) \<longrightarrow>
           euler_x (rotation (mesh\<lparr> rotation := r' \<rparr>)) = euler_x (rotation mesh))
     \<and> (\<not> isFinite (euler_y (rotation mesh)) \<longrightarrow>
           euler_y (rotation (mesh\<lparr> rotation := r' \<rparr>)) = euler_y (rotation mesh))
     \<and> euler_z (rotation (mesh\<lparr> rotation := r' \<rparr>)) = euler_z (rotation mesh)"
    using nx ny r'(3) by simp
  ultimately show ?thesis by blast
qed

text \<open>
  The amended claim C5 twice. A freshly mounted viewer has its mesh at the doubles
  nearest \<open>(0.01, 0.015, 0)\<close>; after two refreshes it is at the doubles nearest
  \<open>(0.03, 0.045, 0)\<close>, the store holds \<open>{"x":0.03,"y":0.045,"z":0}\<close>, and \<open>x\<close> is
  within the tolerance of the exact sum. A viewer mounted on
  \<open>{"x":1e999,"y":0,"z":0}\<close> has its mesh at \<open>(Infinity, 0.015, 0)\<close>; after one
  refresh \<open>x\<close> is still infinite, \<open>y\<close> is the double nearest \<open>0.03\<close>, and the store
  holds \<open>{"x":null,"y":0.03,"z":0}\<close>, which is how ECMAScript serialises an infinite
  number.
\<close>

theorem frames_with_autorotate_witness:
  "(\<exists>s s' mesh mesh' a x.
       session demoJSON Map.empty (Num 800, Num 600) (Num 1) [] = Inr s
     \<and> autoRotate s \<and> meshes s 5 = Some mesh
     \<and> rotation mesh = Euler (to_double 0.01) (to_double 0.015) (Num 0)
     \<and> run demoJSON (replicate 2 Frame) s = Inr s'
     \<and> meshes s' 5 = Some mesh'
     \<and> rotation mesh' = Euler (to_double 0.03) (to_double 0.045) (Num 0)
     \<and> getItem (localStorage s') ''meshRotation'' = Some tick3Text
     \<and> to_double 0.01 = Num a \<and> to_double 0.03 = Num x
     \<and> \<bar>x - (a + 2 * 0.01)\<bar> \<le> tolerance 2 a 0.01)
   \<and> (\<exists>s s' mesh mesh'.
       session demoJSON [''meshRotation'' \<mapsto> overflowText] (Num 800, Num 600) (Num 1) [] = Inr s
     \<and> autoRotate s \<and> meshes s 5 = Some mesh
     \<and> rotation mesh = Euler PosInf (to_double 0.015) (Num 0)
     \<and> run demoJSON (replicate 1 Frame) s = Inr s'
     \<and> meshes s' 5 = Some mesh'
     \<and> rotation mesh' = Euler PosInf (to_double 0.03) (Num 0)
     \<and> getItem (localStorage s') ''meshRotation'' = Some overflowTick2Text)"
proof (rule conjI)
  have "list_all valid_event []" by simp
  then obtain s where s: "session demoJSON Map.empty (Num 800, Num 600) (Num 1) [] = Inr s"
    using session_total by blast
  define mesh where "mesh = \<lparr> geometry = 3, material = 4,
           rotation = Euler (to_double 0.01) (to_double 0.015) (Num 0) \<rparr>"
  have c: "session demoJSON Map.empty (Num 800, Num 600) (Num 1) [] = Inr s \<Longrightarrow>
      autoRotate s \<and> currentMeshRef s = Some 5 \<and> meshes s 5 = Some mesh"
    by (auto simp: model_defs mesh_def double_vals Let_def)
  from c [OF s] have f: "autoRotate s" "currentMeshRef s = Some 5" "meshes s 5 = Some mesh"
    by simp_all
  have n: "0 < (2::nat)" by simp
  have a: "to_double 0.01 = Num (5764607523034235 / 2 ^ 59)" by (rule double_001)
  have d: "is_double (5764607523034235 / 2 ^ 59)"
    unfolding is_double_iff by (rule sum_0_001)
  have r: "(advance ^^ 2) (rotation mesh) = Euler (to_double 0.03) (to_double 0.045) (Num 0)"
    by (simp add: numeral_2_eq_2 mesh_def advance_def double_vals)
  have t: "stringify demoJSON (rotationObject (Euler (to_double 0.03) (to_double 0.045) (Num 0))) =
      tick3Text"
    by (simp add: demo_defs rotationObject_def double_vals)
  have e: "euler_x (rotation mesh) = Num (5764607523034235 / 2 ^ 59)
      \<and> is_double (5764607523034235 / 2 ^ 59)"
    using a d by (simp add: mesh_def)
  from frames_with_autorotate [OF s f n]
  obtain s' mesh' where s': "run demoJSON (replicate 2 Frame) s = Inr s'" "meshes s' 5 = Some mesh'"
    "rotation mesh' = (advance ^^ 2) (rotation mesh)"
    "getItem (localStorage s') ''meshRotation'' =
         Some (stringify demoJSON (rotationObject (rotation mesh')))"
    "\<forall>a. euler_x (rotation mesh) = Num a \<and> is_double a \<longrightarrow>
           (\<exists>x. euler_x (rotation mesh') = Num x \<and> is_double x
              \<and> \<bar>x - (a + real 2 * 0.01)\<bar> \<le> tolerance 2 a 0.01)"
    by blast
  from s'(5) e obtain x where x: "euler_x (rotation mesh') = Num x"
    "\<bar>x - (5764607523034235 / 2 ^ 59 + real 2 * 0.01)\<bar>
       \<le> tolerance 2 (5764607523034235 / 2 ^ 59) 0.01"
    by blast
  from x(1) have x1: "to_double 0.03 = Num x" by (simp add: s'(3) r)
  from x(2) have x2: "\<bar>x - (5764607523034235 / 2 ^ 59 + 2 * 0.01)\<bar>
       \<le> tolerance 2 (5764607523034235 / 2 ^ 59) 0.01"
    by simp
  have m: "rotation mesh = Euler (to_double 0.01) (to_double 0.015) (Num 0)"
    by (simp add: mesh_def)
  have g: "getItem (localStorage s') ''meshRotation'' = Some tick3Text"
    by (simp only: s'(4) s'(3) r t)
  have r2: "rotation mesh' = Euler (to_double 0.03) (to_double 0.045) (Num 0)"
    by (simp only: s'(3) r)
  from s f(1,3) m s'(1,2) r2 g a x1 x2
  show "\<exists>s s' mesh mesh' a x.
       session demoJSON Map.empty (Num 800, Num 600) (Num 1) [] = Inr s
     \<and> autoRotate s \<and> meshes s 5 = Some mesh
     \<and> rotation mesh = Euler (to_double 0.01) (to_double 0.015) (Num 0)
     \<and> run demoJSON (replicate 2 Frame) s = Inr s'
     \<and> meshes s' 5 = Some mesh'
     \<and> rotation mesh' = Euler (to_double 0.03) (to_double 0.045) (Num 0)
     \<and> getItem (localStorage s') ''meshRotation'' = Some tick3Text
     \<and> to_double 0.01 = Num a \<and> to_double 0.03 = Num x
     \<and> \<bar>x - (a + 2 * 0.01)\<bar> \<le> tolerance 2 a 0.01"
    by blast
next
  have "list_all valid_event []" by simp
  then obtain s where s: "session demoJSON [''meshRotation'' \<mapsto> overflowText] (Num 800, Num 600)
      (Num 1) [] = Inr s"
    using session_total by blast
  define mesh where "mesh = \<lparr> geometry = 3, material = 4,
           rotation = Euler PosInf (to_double 0.015) (Num 0) \<rparr>"
  have c: "session demoJSON [''meshRotation'' \<mapsto> overflowText] (Num 800, Num 600) (Num 1) []
        = Inr s \<Longrightarrow>
      autoRotate s \<and> currentMeshRef s = Some 5 \<and> meshes s 5 = Some mesh"
    by (auto simp: model_defs demo_defs mesh_def double_vals Let_def)
  from c [OF s] have f: "autoRotate s" "currentMeshRef s = Some 5" "meshes s 5 = Some mesh"
    by simp_all
  have n: "0 < (1::nat)" by simp
  have r: "(advance ^^ 1) (rotation mesh) = Euler PosInf (to_double 0.03) (Num 0)"
    by (simp add: mesh_def advance_def double_vals)
  have t: "stringify demoJSON (rotationObject (Euler PosInf (to_double 0.03) (Num 0))) =
      overflowTick2Text"
    by (simp add: demo_defs rotationObject_def double_vals)
  from frames_with_autorotate [OF s f n]
  obtain s' mesh' where s': "run demoJSON (replicate 1 Frame) s = Inr s'" "meshes s' 5 = Some mesh'"
    "rotation mesh' = (advance ^^ 1) (rotation mesh)"
    "getItem (localStorage s') ''meshRotation'' =
         Some (stringify demoJSON (rotationObject (rotation mesh')))"
    by blast
  have m: "rotation mesh = Euler PosInf (to_double 0.015) (Num 0)"
    by (simp add: mesh_def)
  have g: "getItem (localStorage s') ''meshRotation'' = Some overflowTick2Text"
    by (simp only: s'(4) s'(3) r t)
  have r2: "rotation mesh' = Euler PosInf (to_double 0.03) (Num 0)"
    by (simp only: s'(3) r)
  from s f(1,3) m s'(1,2) r2 g
  show "\<exists>s s' mesh mesh'.
       session demoJSON [''meshRotation'' \<mapsto> overflowText] (Num 800, Num 600) (Num 1) [] = Inr s
     \<and> autoRotate s \<and> meshes s 5 = Some mesh
     \<and> rotation mesh = Euler PosInf (to_double 0.015) (Num 0)
     \<and> run demoJSON (replicate 1 Frame) s = Inr s'
     \<and> meshes s' 5 = Some mesh'
     \<and> rotation mesh' = Euler PosInf (to_double 0.03) (Num 0)
     \<and> getItem (localStorage s') ''meshRotation'' = Some overflowTick2Text"
    by blast
qed

text \<open>
  Claim C6. With auto-rotate disabled, any number \<open>N\<close> of display refreshes leaves the
  meshes, and with them the rotation of the active mesh, and the store as they were, and
  each of the \<open>N\<close> refreshes renders the scene through the camera once.
\<close>

theorem frames_without_autorotate:
  assumes "session J ls vp dpr evs = Inr s" and "\<not> autoRotate s"
  shows "\<exists>s' c. run J (replicate N Frame) s = Inr s' \<and> cleanupFn s = Some c
     \<and> \<not> autoRotate s'
     \<and> currentMeshRef s' = currentMeshRef s \<and> meshes s' = meshes s
     \<and> localStorage s' = localStorage s
     \<and> rendered (trace s') =
         rendered (trace s) @ replicate N (Render (c_renderer c) (c_scene c) (c_camera c))"
proof -
  have l: "live s" using assms(1) by (rule session_live)
  then obtain c where c: "cleanupFn s = Some c" by (auto elim: live_fields)
  from frames_off [OF l assms(2) c, of J N] c show ?thesis by blast
qed

text \<open>Claim C6 for three refreshes of a viewer mounted with auto-rotate stored as off.\<close>

theorem frames_without_autorotate_witness:
  "\<exists>s s'. session demoJSON [''autoRotate'' \<mapsto> ''false''] (Num 800, Num 600) (Num 1) [] = Inr s
     \<and> \<not> autoRotate s
     \<and> run demoJSON (replicate 3 Frame) s = Inr s'
     \<and> meshes s' = meshes s
     \<and> rendered (trace s') = [Render 2 0 1, Render 2 0 1, Render 2 0 1, Render 2 0 1]"
proof -
  have "list_all valid_event []" by simp
  then obtain s where s: "session demoJSON [''autoRotate'' \<mapsto> ''false''] (Num 800, Num 600) (Num 1) [] = Inr s"
    using session_total by blast
  have c: "session demoJSON [''autoRotate'' \<mapsto> ''false''] (Num 800, Num 600) (Num 1) [] = Inr s \<Longrightarrow>
      \<not> autoRotate s \<and> cleanupFn s = Some \<lparr> c_scene = 0, c_camera = 1, c_renderer = 2,
          c_geometry = 3, c_material = 4 \<rparr>
      \<and> trace s = [Create (Renderer 2), Create (Geometry 3), Create (Material 4),
                  RequestFrame 1, Render 2 0 1]"
    by (auto simp: model_defs Let_def)
  from c [OF s] have a: "\<not> autoRotate s" by simp
  from frames_without_autorotate [OF s a, of 3] c [OF s] s show ?thesis
    by (auto simp: numeral_3_eq_3)
qed

text \<open>
  Claim C7 does not hold when auto-rotate is enabled. The store holds
  \<open>{"x":1.2,"y":0.4,"z":0}\<close> and no auto-rotate entry. The restore step gives the new
  mesh exactly that rotation, but the construction ends by calling \<open>animate\<close>
  directly, which advances it and persists it: when the effect has finished, and
  before any display refresh, the mesh is at \<open>(1.21, 0.41500000000000004, 0)\<close> and the
  store holds \<open>{"x":1.21,"y":0.41500000000000004,"z":0}\<close>.
\<close>

theorem restored_rotation_already_advanced:
  "\<exists>s mesh. session demoJSON [''meshRotation'' \<mapsto> rotationText] (Num 800, Num 600) (Num 1) []
               = Inr s
     \<and> restoreRotation demoJSON [''meshRotation'' \<mapsto> rotationText]
          (Euler (Num 0) (Num 0) (Num 0)) = Euler (to_double 1.2) (to_double 0.4) (Num 0)
     \<and> currentMeshRef s = Some 5 \<and> meshes s 5 = Some mesh
     \<and> rotation mesh = Euler (to_double 1.21) (to_double 0.41500000000000004) (Num 0)
     \<and> rotation mesh \<noteq> Euler (to_double 1.2) (to_double 0.4) (Num 0)
     \<and> getItem (localStorage s) ''meshRotation'' = Some advancedText
     \<and> trace s = [Create (Renderer 2), Create (Geometry 3), Create (Material 4),
                  RequestFrame 1, Render 2 0 1]"
  by (simp add: model_defs demo_defs double_vals Let_def)

text \<open>
  Claim C7, amended. Let the store hold the serialisation of a rotation \<open>r\<close>, as a
  refresh writes it, and let the JSON library read back what it wrote. Then the
  restore step of the next construction, on mount or on a change of shape, yields
  exactly \<open>r\<close>. When the construction has finished, and before any display refresh,
  the new mesh is at \<open>r\<close> if auto-rotate is disabled, and at \<open>r\<close> advanced by one
  increment \<open>x += 0.01; y += 0.015\<close> if it is enabled, because the construction ends
  with a direct call of the frame callback; in both cases the store then holds the
  serialisation of the rotation the mesh is at, so the advanced value has been
  persisted.
\<close>

theorem construct_restores_rotation:
  assumes "roundtrips J (rotationObject r)"
  shows "(getItem ls ''meshRotation'' = Some (stringify J (rotationObject r)) \<longrightarrow>
            restoreRotation J ls (Euler (Num 0) (Num 0) (Num 0)) = r
          \<and> (\<exists>s mesh. mount J ls vp dpr = Inr s
                \<and> currentMeshRef s = Some 5 \<and> meshes s 5 = Some mesh
                \<and> rotation mesh = (if autoRotate s then advance r else r)
                \<and> getItem (localStorage s) ''meshRotation'' =
                    Some (stringify J (rotationObject (rotation mesh)))))
     \<and> (session J ls vp dpr evs = Inr s
          \<and> getItem (localStorage s) ''meshRotation'' = Some (stringify J (rotationObject r))
          \<and> k \<in> set (Object_keys GEOMETRIES) \<and> k \<noteq> geometryKey s \<longrightarrow>
            restoreRotation J (localStorage s) (Euler (Num 0) (Num 0) (Num 0)) = r
          \<and> (\<exists>s' mesh. step J (SelectShape k) s = Inr s'
                \<and> currentMeshRef s' = Some (nextId s + 5)
                \<and> meshes s' (nextId s + 5) = Some mesh
                \<and> rotation mesh = (if autoRotate s then advance r else r)
                \<and> getItem (localStorage s') ''meshRotation'' =
                    Some (stringify J (rotationObject (rotation mesh)))))"
proof (intro conjI impI)
  assume g: "getItem ls ''meshRotation'' = Some (stringify J (rotationObject r))"
  show r0: "restoreRotation J ls (Euler (Num 0) (Num 0) (Num 0)) = r"
    using assms g by (rule restoreRotation_roundtrip)
  obtain s0 where s0: "mount J ls vp dpr = Inr s0" using mount_total by blast
  from mount_fields(7) [OF s0] obtain mesh where m: "meshes s0 5 = Some mesh"
    "rotation mesh = (if autoRotate_init ls then advance r else r)"
    by (auto simp: r0)
  from mount_fields(10) [OF s0] g m(2)
  have "getItem (localStorage s0) ''meshRotation'' =
      Some (stringify J (rotationObject (rotation mesh)))"
    by (simp add: r0)
  with m s0 mount_fields(3,6) [OF s0]
  show "\<exists>s mesh. mount J ls vp dpr = Inr s
                \<and> currentMeshRef s = Some 5 \<and> meshes s 5 = Some mesh
                \<and> rotation mesh = (if autoRotate s then advance r else r)
                \<and> getItem (localStorage s) ''meshRotation'' =
                    Some (stringify J (rotationObject (rotation mesh)))"
    by auto
next
  assume a: "session J ls vp dpr evs = Inr s
          \<and> getItem (localStorage s) ''meshRotation'' = Some (stringify J (rotationObject r))
          \<and> k \<in> set (Object_keys GEOMETRIES) \<and> k \<noteq> geometryKey s"
  then have l: "live s" using session_live(1) by blast
  from l obtain c where c: "cleanupFn s = Some c" and mr: "mountRef s"
    and ar: "autoRotateRef s = autoRotate s"
    by (auto elim: live_fields)
  from a lookup_valid obtain g where g: "map_of GEOMETRIES k = Some g" by blast
  define p where "p = saveGeometryKey (cleanup c (s\<lparr> geometryKey := k \<rparr>))"
  have p: "mountRef p" "geometryKey p = k" "autoRotateRef p = autoRotate s" "nextId p = nextId s"
    "getItem (localStorage p) ''meshRotation'' = getItem (localStorage s) ''meshRotation''"
    using mr ar
    by (simp_all add: p_def saveGeometryKey_def select_cleanup_eq [OF l c] getItem_def setItem_def)
  show r0: "restoreRotation J (localStorage s) (Euler (Num 0) (Num 0) (Num 0)) = r"
    using assms a by (intro restoreRotation_roundtrip) simp_all
  have r1: "restoreRotation J (localStorage p) (Euler (Num 0) (Num 0) (Num 0)) = r"
    using restoreRotation_cong [OF p(5)] r0 by simp
  have "initScene J p = Inr (started J g p)"
    using p(1) g by (intro initScene_eq) (simp_all add: p(2))
  then have st: "step J (SelectShape k) s = Inr (started J g p)"
    using a c by (simp add: p_def)
  have "currentMeshRef (started J g p) = Some (nextId s + 5)"
    "meshes (started J g p) (nextId s + 5) =
       Some \<lparr> geometry = nextId s + 3, material = nextId s + 4,
              rotation = (if autoRotate s then advance r else r) \<rparr>"
    "getItem (localStorage (started J g p)) ''meshRotation'' =
       Some (stringify J (rotationObject (if autoRotate s then advance r else r)))"
    using a p(5) by (simp_all add: started_def Let_def r1 p(3,4) getItem_def setItem_def)
  with st show "\<exists>s' mesh. step J (SelectShape k) s = Inr s'
                \<and> currentMeshRef s' = Some (nextId s + 5)
                \<and> meshes s' (nextId s + 5) = Some mesh
                \<and> rotation mesh = (if autoRotate s then advance r else r)
                \<and> getItem (localStorage s') ''meshRotation'' =
                    Some (stringify J (rotationObject (rotation mesh)))"
    by simp
qed

text \<open>
  The amended claim C7 twice. Mounted on \<open>{"x":1.2,"y":0.4,"z":0}\<close> with auto-rotate
  stored as off, the mesh is at that rotation and the store still holds that text.
  Mounted on the same text with auto-rotate on, the viewer persists
  \<open>{"x":1.21,"y":0.41500000000000004,"z":0}\<close>; auto-rotate is then switched off and
  another shape selected, and the new mesh is at \<open>(1.21, 0.41500000000000004, 0)\<close>,
  with that text still in the store.
\<close>

theorem construct_restores_rotation_witness:
  "(\<exists>s0 mesh. mount demoJSON [''meshRotation'' \<mapsto> rotationText, ''autoRotate'' \<mapsto> ''false'']
                   (Num 800, Num 600) (Num 1) = Inr s0
        \<and> meshes s0 5 = Some mesh
        \<and> rotation mesh = Euler (to_double 1.2) (to_double 0.4) (Num 0)
        \<and> getItem (localStorage s0) ''meshRotation'' = Some rotationText)
   \<and> (\<exists>s s' mesh. session demoJSON [''meshRotation'' \<mapsto> rotationText] (Num 800, Num 600) (Num 1)
                  [ToggleAutoRotate] = Inr s
        \<and> getItem (localStorage s) ''meshRotation'' = Some advancedText
        \<and> step demoJSON (SelectShape ''sphere'') s = Inr s'
        \<and> currentMeshRef s' = Some 11 \<and> meshes s' 11 = Some mesh
        \<and> rotation mesh = Euler (to_double 1.21) (to_double 0.41500000000000004) (Num 0)
        \<and> getItem (localStorage s') ''meshRotation'' = Some advancedText)"
proof
  have rt: "roundtrips demoJSON (rotationObject (Euler (to_double 1.2) (to_double 0.4) (Num 0)))"
    by (simp add: roundtrips_def demo_defs rotationObject_def double_vals)
  have st: "stringify demoJSON (rotationObject (Euler (to_double 1.2) (to_double 0.4) (Num 0))) =
      rotationText"
    by (simp add: demo_defs rotationObject_def double_vals)
  have g: "getItem [''meshRotation'' \<mapsto> rotationText, ''autoRotate'' \<mapsto> ''false''] ''meshRotation'' =
      Some (stringify demoJSON (rotationObject (Euler (to_double 1.2) (to_double 0.4) (Num 0))))"
    unfolding st by (simp add: getItem_def)
  from construct_restores_rotation [OF rt, THEN conjunct1, rule_format, OF g]
  obtain s0 mesh where m: "mount demoJSON [''meshRotation'' \<mapsto> rotationText, ''autoRotate'' \<mapsto> ''false'']
                   (Num 800, Num 600) (Num 1) = Inr s0" "meshes s0 5 = Some mesh"
      "rotation mesh = (if autoRotate s0 then advance (Euler (to_double 1.2) (to_double 0.4) (Num 0))
                        else Euler (to_double 1.2) (to_double 0.4) (Num 0))"
      "getItem (localStorage s0) ''meshRotation'' =
         Some (stringify demoJSON (rotationObject (rotation mesh)))"
    by blast
  from mount_fields(3) [OF m(1)] have n: "\<not> autoRotate s0"
    by (simp add: autoRotate_init_def getItem_def)
  from m(3) n have r: "rotation mesh = Euler (to_double 1.2) (to_double 0.4) (Num 0)" by simp
  from m(4) have "getItem (localStorage s0) ''meshRotation'' = Some rotationText"
    by (simp only: r st)
  with m(1,2) r
  show "\<exists>s0 mesh. mount demoJSON [''meshRotation'' \<mapsto> rotationText, ''autoRotate'' \<mapsto> ''false'']
                   (Num 800, Num 600) (Num 1) = Inr s0
        \<and> meshes s0 5 = Some mesh
        \<and> rotation mesh = Euler (to_double 1.2) (to_double 0.4) (Num 0)
        \<and> getItem (localStorage s0) ''meshRotation'' = Some rotationText"
    by blast
next
  have "list_all valid_event [ToggleAutoRotate]" by (simp add: valid_event_def)
  then obtain s where s: "session demoJSON [''meshRotation'' \<mapsto> rotationText] (Num 800, Num 600)
      (Num 1) [ToggleAutoRotate] = Inr s"
    using session_total by blast
  have c: "session demoJSON [''meshRotation'' \<mapsto> rotationText] (Num 800, Num 600)
      (Num 1) [ToggleAutoRotate] = Inr s \<Longrightarrow>
      \<not> autoRotate s \<and> geometryKey s = ''box'' \<and> nextId s = 6
      \<and> getItem (localStorage s) ''meshRotation'' = Some advancedText"
    by (auto simp: model_defs demo_defs double_vals Let_def)
  have rt: "roundtrips demoJSON
      (rotationObject (Euler (to_double 1.21) (to_double 0.41500000000000004) (Num 0)))"
    by (simp add: roundtrips_def demo_defs rotationObject_def double_vals)
  have st: "stringify demoJSON
      (rotationObject (Euler (to_double 1.21) (to_double 0.41500000000000004) (Num 0))) = advancedText"
    by (simp add: demo_defs rotationObject_def double_vals)
  have h: "session demoJSON [''meshRotation'' \<mapsto> rotationText] (Num 800, Num 600)
      (Num 1) [ToggleAutoRotate] = Inr s
    \<and> getItem (localStorage s) ''meshRotation'' =
      Some (stringify demoJSON
        (rotationObject (Euler (to_double 1.21) (to_double 0.41500000000000004) (Num 0))))
    \<and> ''sphere'' \<in> set (Object_keys GEOMETRIES) \<and> ''sphere'' \<noteq> geometryKey s"
    unfolding st using c [OF s] s by (simp add: keys)
  from construct_restores_rotation [OF rt, THEN conjunct2, rule_format, OF h]
  obtain s' mesh where
    r: "step demoJSON (SelectShape ''sphere'') s = Inr s'" "currentMeshRef s' = Some (nextId s + 5)"
      "meshes s' (nextId s + 5) = Some mesh"
      "rotation mesh =
         (if autoRotate s
          then advance (Euler (to_double 1.21) (to_double 0.41500000000000004) (Num 0))
          else Euler (to_double 1.21) (to_double 0.41500000000000004) (Num 0))"
      "getItem (localStorage s') ''meshRotation'' =
         Some (stringify demoJSON (rotationObject (rotation mesh)))"
    by blast
  from r(4) c [OF s]
  have r4: "rotation mesh = Euler (to_double 1.21) (to_double 0.41500000000000004) (Num 0)"
    by simp
  from r(5) have r5: "getItem (localStorage s') ''meshRotation'' = Some advancedText"
    by (simp only: r4 st)
  from c [OF s] r(2,3) have r23: "currentMeshRef s' = Some 11" "meshes s' 11 = Some mesh"
    by simp_all
  from s c [OF s] r(1) r23 r4 r5
  show "\<exists>s s' mesh. session demoJSON [''meshRotation'' \<mapsto> rotationText] (Num 800, Num 600) (Num 1)
                  [ToggleAutoRotate] = Inr s
        \<and> getItem (localStorage s) ''meshRotation'' = Some advancedText
        \<and> step demoJSON (SelectShape ''sphere'') s = Inr s'
        \<and> currentMeshRef s' = Some 11 \<and> meshes s' 11 = Some mesh
        \<and> rotation mesh = Euler (to_double 1.21) (to_double 0.41500000000000004) (Num 0)
        \<and> getItem (localStorage s') ''meshRotation'' = Some advancedText"
    by blast
qed

text \<open>
  Claim C8 does not hold for the material's other flag. After a change of shape the
  new material has \<open>needsUpdate\<close> unset; toggling wireframe then sets the wireframe
  flag and \<open>needsUpdate\<close> both.
\<close>

theorem toggle_sets_needsUpdate:
  "\<exists>s s'. session demoJSON [''autoRotate'' \<mapsto> ''false''] (Num 800, Num 600) (Num 1)
             [SelectShape ''sphere''] = Inr s
     \<and> step demoJSON ToggleWireframe s = Inr s'
     \<and> currentMeshRef s = Some 11
     \<and> meshes s 11 = Some \<lparr> geometry = 9, material = 10,
                              rotation = Euler (Num 0) (Num 0) (Num 0) \<rparr>
     \<and> materials s 10 = Some \<lparr> mat_color = ''#FF6B6B'', mat_wireframe = False,
                                 mat_needsUpdate = False \<rparr>
     \<and> materials s' 10 = Some \<lparr> mat_color = ''#FF6B6B'', mat_wireframe = True,
                                  mat_needsUpdate = True \<rparr>"
  by (simp add: model_defs Let_def)

text \<open>
  Claim C8, amended. In every state a mounted component can reach, toggling wireframe
  changes, in the scene, two fields of the active mesh's material, in place: the
  wireframe flag and \<open>needsUpdate\<close>, which is set. Outside the scene it changes the
  wireframe state, its mirror ref and the stored preference. Everything else is as it
  was: nothing is created, disposed, cancelled or rendered, and the mesh, its geometry
  and rotation, the lights, the camera and the renderer are untouched.
\<close>

theorem toggle_wireframe_effect:
  assumes "session J ls vp dpr evs = Inr s"
  shows "\<exists>m mesh mat. currentMeshRef s = Some m \<and> meshes s m = Some mesh
     \<and> materials s (material mesh) = Some mat
     \<and> step J ToggleWireframe s =
         Inr (s\<lparr> wireframe := \<not> wireframe s,
                 wireframeRef := \<not> wireframe s,
                 localStorage := setItem (localStorage s) ''wireframe''
                                   (String_of_bool (\<not> wireframe s)),
                 materials := (materials s)(material mesh \<mapsto>
                    mat\<lparr> mat_wireframe := \<not> wireframe s, mat_needsUpdate := True \<rparr>) \<rparr>)"
proof -
  have l: "live s" using assms by (rule session_live)
  from l obtain c mesh mat where f: "cleanupFn s = Some c"
    "currentMeshRef s = Some (c_material c + 1)"
    "meshes s (c_material c + 1) = Some mesh"
    "material mesh = c_material c" "materials s (c_material c) = Some mat"
    by (auto elim: live_fields)
  from l obtain c' mat' where e: "cleanupFn s = Some c'" "materials s (c_material c') = Some mat'"
    "applyWireframe (syncWireframe (s\<lparr> wireframe := \<not> wireframe s \<rparr>)) =
      s\<lparr> wireframe := \<not> wireframe s, wireframeRef := \<not> wireframe s,
         localStorage := setItem (localStorage s) ''wireframe'' (String_of_bool (\<not> wireframe s)),
         materials := (materials s)(c_material c' \<mapsto>
           mat'\<lparr> mat_wireframe := \<not> wireframe s, mat_needsUpdate := True \<rparr>) \<rparr>"
    by (rule toggleWireframe_eq)
  from e(1,2) f(1,5) have "c' = c" "mat' = mat" by simp_all
  with e(3) f show ?thesis by simp
qed

text \<open>The amended claim C8 for a freshly mounted viewer.\<close>

theorem toggle_wireframe_effect_witness:
  "\<exists>s s'. session demoJSON Map.empty (Num 800, Num 600) (Num 1) [] = Inr s
     \<and> step demoJSON ToggleWireframe s = Inr s'
     \<and> materials s 4 = Some \<lparr> mat_color = ''#44aa88'', mat_wireframe = False,
                                mat_needsUpdate = True \<rparr>
     \<and> materials s' 4 = Some \<lparr> mat_color = ''#44aa88'', mat_wireframe = True,
                                 mat_needsUpdate = True \<rparr>
     \<and> trace s' = trace s \<and> meshes s' = meshes s \<and> scenes s' = scenes s
     \<and> cameras s' = cameras s \<and> renderers s' = renderers s
     \<and> geometries s' = geometries s \<and> cleanupFn s' = cleanupFn s"
proof -
  have "list_all valid_event []" by simp
  then obtain s where s: "session demoJSON Map.empty (Num 800, Num 600) (Num 1) [] = Inr s"
    using session_total by blast
  have c: "session demoJSON Map.empty (Num 800, Num 600) (Num 1) [] = Inr s \<Longrightarrow>
      wireframe s = False \<and> currentMeshRef s = Some 5
      \<and> (\<exists>r. meshes s 5 = Some \<lparr> geometry = 3, material = 4, rotation = r \<rparr>)
      \<and> materials s 4 = Some \<lparr> mat_color = ''#44aa88'', mat_wireframe = False,
                                mat_needsUpdate = True \<rparr>"
    by (auto simp: model_defs Let_def)
  from toggle_wireframe_effect [OF s] c [OF s] s show ?thesis
    by auto
qed

text \<open>
  Claim C9. In every state a mounted component can reach, both teardowns (the one of
  an unmount and the one that precedes the reconstruction for a new key) first cancel
  the pending frame request, which is the only registered callback, and only then
  dispose renderer, geometry and material and clear the scene. After an unmount no
  callback is registered and a display refresh renders nothing; after a change of
  shape the only callback is the one the new construction registered.
\<close>

theorem teardown_cancels_before_release:
  assumes "session J ls vp dpr evs = Inr s"
  shows "\<exists>c h. cleanupFn s = Some c \<and> frameCallbacks s = [(h, c)]
     \<and> trace (unmount s) =
         trace s @ [CancelFrame h, Dispose (Renderer (c_renderer c)),
                    Dispose (Geometry (c_geometry c)), Dispose (Material (c_material c)),
                    ClearScene (c_scene c)]
     \<and> frameCallbacks (unmount s) = []
     \<and> trace (runFrame J (unmount s)) = trace (unmount s)
     \<and> (\<forall>k. k \<in> set (Object_keys GEOMETRIES) \<and> k \<noteq> geometryKey s \<longrightarrow>
           (\<exists>s'. step J (SelectShape k) s = Inr s'
              \<and> trace s' =
                  trace s @ [CancelFrame h, Dispose (Renderer (c_renderer c)),
                             Dispose (Geometry (c_geometry c)), Dispose (Material (c_material c)),
                             ClearScene (c_scene c),
                             Dispose (Renderer (c_renderer c)),
                             Create (Renderer (nextId s + 2)), Create (Geometry (nextId s + 3)),
                             Create (Material (nextId s + 4)),
                             RequestFrame (h + 1),
                             Render (nextId s + 2) (nextId s) (nextId s + 1)]
              \<and> frameCallbacks s' =
                  [(h + 1, \<lparr> c_scene = nextId s, c_camera = nextId s + 1,
                              c_renderer = nextId s + 2, c_geometry = nextId s + 3,
                              c_material = nextId s + 4 \<rparr>)]))"
proof -
  have l: "live s" using assms by (rule session_live)
  from l obtain c where u: "cleanupFn s = Some c" "frameCallbacks s = [(frameHandle s, c)]"
    "unmount s =
       s\<lparr> mountRef := False, cleanupFn := None, resizeListeners := [], frameCallbacks := [],
          trace := trace s @ [CancelFrame (frameHandle s), Dispose (Renderer (c_renderer c)),
                              Dispose (Geometry (c_geometry c)), Dispose (Material (c_material c)),
                              ClearScene (c_scene c)],
          scenes := modify (scenes s) (c_scene c) (\<lambda>sc. sc\<lparr> children := [] \<rparr>) \<rparr>"
    by (rule unmount_eq)
  from l u(1) have rr: "rendererRef s = Some (c_renderer c)" by (auto elim: live_fields)
  have f: "trace (runFrame J (unmount s)) = trace (unmount s)"
    by (simp add: u(3) runFrame_def)
  have sel: "\<exists>s'. step J (SelectShape k) s = Inr s'
              \<and> trace s' =
                  trace s @ [CancelFrame (frameHandle s), Dispose (Renderer (c_renderer c)),
                             Dispose (Geometry (c_geometry c)), Dispose (Material (c_material c)),
                             ClearScene (c_scene c),
                             Dispose (Renderer (c_renderer c)),
                             Create (Renderer (nextId s + 2)), Create (Geometry (nextId s + 3)),
                             Create (Material (nextId s + 4)),
                             RequestFrame (frameHandle s + 1),
                             Render (nextId s + 2) (nextId s) (nextId s + 1)]
              \<and> frameCallbacks s' =
                  [(frameHandle s + 1, \<lparr> c_scene = nextId s, c_camera = nextId s + 1,
                              c_renderer = nextId s + 2, c_geometry = nextId s + 3,
                              c_material = nextId s + 4 \<rparr>)]"
    if k: "k \<in> set (Object_keys GEOMETRIES) \<and> k \<noteq> geometryKey s" for k
  proof -
    from k have k1: "k \<in> set (Object_keys GEOMETRIES)" and k2: "k \<noteq> geometryKey s" by simp_all
    obtain g p where e: "map_of GEOMETRIES k = Some g"
      "p = s\<lparr> geometryKey := k, resizeListeners := [], frameCallbacks := [],
          trace := trace s @ [CancelFrame (frameHandle s), Dispose (Renderer (c_renderer c)),
                              Dispose (Geometry (c_geometry c)), Dispose (Material (c_material c)),
                              ClearScene (c_scene c)],
          scenes := modify (scenes s) (c_scene c) (\<lambda>sc. sc\<lparr> children := [] \<rparr>),
          localStorage := setItem (localStorage s) ''geometryKey'' k \<rparr>"
      "step J (SelectShape k) s = Inr (started J g p)"
      using select_started [OF l u(1) k1 k2, of J] by blast
    have "trace (started J g p) =
                  trace s @ [CancelFrame (frameHandle s), Dispose (Renderer (c_renderer c)),
                             Dispose (Geometry (c_geometry c)), Dispose (Material (c_material c)),
                             ClearScene (c_scene c),
                             Dispose (Renderer (c_renderer c)),
                             Create (Renderer (nextId s + 2)), Create (Geometry (nextId s + 3)),
                             Create (Material (nextId s + 4)),
                             RequestFrame (frameHandle s + 1),
                             Render (nextId s + 2) (nextId s) (nextId s + 1)]"
      "frameCallbacks (started J g p) =
                  [(frameHandle s + 1, \<lparr> c_scene = nextId s, c_camera = nextId s + 1,
                              c_renderer = nextId s + 2, c_geometry = nextId s + 3,
                              c_material = nextId s + 4 \<rparr>)]"
      using rr by (simp_all add: started_def Let_def e(2))
    with e(3) show ?thesis by simp
  qed
  from u(1,2) f sel show ?thesis
    by (intro exI [of _ c] exI [of _ "frameHandle s"]) (simp add: u(3))
qed

text \<open>Claim C9 after one display refresh of a freshly mounted viewer.\<close>

theorem teardown_cancels_before_release_witness:
  "\<exists>s. session demoJSON Map.empty (Num 800, Num 600) (Num 1) [Frame] = Inr s
     \<and> trace s = [Create (Renderer 2), Create (Geometry 3), Create (Material 4),
                  RequestFrame 1, Render 2 0 1, RequestFrame 2, Render 2 0 1]
     \<and> trace (unmount s) =
         trace s @ [CancelFrame 2, Dispose (Renderer 2), Dispose (Geometry 3),
                    Dispose (Material 4), ClearScene 0]
     \<and> frameCallbacks (unmount s) = []"
proof -
  have "list_all valid_event [Frame]" by (simp add: valid_event_def)
  then obtain s where s: "session demoJSON Map.empty (Num 800, Num 600) (Num 1) [Frame] = Inr s"
    using session_total by blast
  have c: "session demoJSON Map.empty (Num 800, Num 600) (Num 1) [Frame] = Inr s \<Longrightarrow>
      cleanupFn s = Some \<lparr> c_scene = 0, c_camera = 1, c_renderer = 2, c_geometry = 3,
                            c_material = 4 \<rparr>
      \<and> frameCallbacks s = [(2, \<lparr> c_scene = 0, c_camera = 1, c_renderer = 2, c_geometry = 3,
                            c_material = 4 \<rparr>)]
      \<and> trace s = [Create (Renderer 2), Create (Geometry 3), Create (Material 4),
                  RequestFrame 1, Render 2 0 1, RequestFrame 2, Render 2 0 1]"
    by (auto simp: model_defs Let_def)
  from teardown_cancels_before_release [OF s] c [OF s] s show ?thesis
    by auto
qed

text \<open>
  Claim C10. After mounting, the wireframe state is true exactly when the store holds
  the string \<open>true\<close> under \<open>wireframe\<close>; for an absent entry and for every other
  string the viewer starts solid, and the material of the mesh carries the same flag.
  Auto-rotate is the other way round: it is off only for the string \<open>false\<close>.
\<close>

theorem initial_wireframe_only_for_true:
  "\<exists>s mesh mat. mount J ls vp dpr = Inr s
     \<and> wireframe s = (ls ''wireframe'' = Some ''true'')
     \<and> autoRotate s = (ls ''autoRotate'' \<noteq> Some ''false'')
     \<and> currentMeshRef s = Some 5 \<and> meshes s 5 = Some mesh
     \<and> materials s (material mesh) = Some mat
     \<and> mat_wireframe mat = (ls ''wireframe'' = Some ''true'')"
proof -
  obtain s where s: "mount J ls vp dpr = Inr s" using mount_total by blast
  from mount_fields(7) [OF s] obtain mesh where m: "meshes s 5 = Some mesh" "material mesh = 4"
    by blast
  from mount_fields(8) [OF s] obtain mat where mt: "materials s 4 = Some mat"
    "mat_wireframe mat = wireframe_init ls" by blast
  show ?thesis
    using s m mt mount_fields(2,3,6) [OF s]
    by (auto simp: wireframe_init_def autoRotate_init_def getItem_def)
qed

end
